theory Spec2Isabelle
  imports Main
begin

section \<open>Values exchanged between tasks\<close>

text \<open>
  A JSON record as \<^verbatim>\<open>fs.readJSONSync\<close> returns it and \<^verbatim>\<open>fs.writeJSONSync\<close> stores it.
  An object is the list of its members in insertion order, each key once, as
  \<^verbatim>\<open>JSON.parse\<close> builds it. Numbers play no part in the pipeline; they are integers here.
\<close>

datatype json =
    JNull
  | JBool bool
  | JNum int
  | JStr string
  | JArr "json list"
  | JObj "(string \<times> json) list"

text \<open>
  The two record types of the compiler collaborator (\<^verbatim>\<open>InkInput\<close>, \<^verbatim>\<open>InkOutput\<close>), with the
  fields the compile tasks read: \<^verbatim>\<open>input.sources\<close>, \<^verbatim>\<open>target.name\<close>, \<^verbatim>\<open>target.contract\<close>.
\<close>

record InkInput =
  sources :: "string list"

record InkOutput =
  name :: string
  contract :: string

text \<open>
  \<^verbatim>\<open>TaskArguments = any\<close>: a task argument or a task result is a dynamically typed value.
  \<open>Undefined\<close> is JavaScript's \<^verbatim>\<open>undefined\<close>, also the result of an action that returns
  nothing.
\<close>

datatype val =
    Undefined
  | VBool bool
  | VInt int
  | VStr string
  | VList "val list"
  | VInput InkInput
  | VOutput "InkOutput list"

type_synonym TaskArguments = "string \<rightharpoonup> val"

text \<open>Reading a property of the arguments object: an absent key reads as \<^verbatim>\<open>undefined\<close>.\<close>

definition arg :: "TaskArguments \<Rightarrow> string \<Rightarrow> val" where
  "arg taskArgs k = (case taskArgs k of None \<Rightarrow> Undefined | Some v \<Rightarrow> v)"

section \<open>Errors\<close>

text \<open>
  Every way a task can fail. \<open>INK_ENV_ERROR\<close> and \<open>INK_DUPLICATE_NAME\<close> are the two
  \<^verbatim>\<open>RedspotError\<close>s the compile tasks throw, with their message arguments (\<^verbatim>\<open>version\<close>;
  \<^verbatim>\<open>path1\<close>, \<^verbatim>\<open>path2\<close>, where \<^verbatim>\<open>path1\<close> is an array read and so may be \<^verbatim>\<open>undefined\<close>).
  \<open>TypeError\<close> is the JavaScript runtime's; \<open>ENOENT\<close> is a JSON file that cannot be read;
  \<open>Rejected\<close> is a collaborator's promise rejecting with a message. The next four are
  the engine's errors as the spec names them. The spec leaves the builder's three
  rejections without a name; the last three constructors name them after what they
  reject.
\<close>

datatype error =
    INK_ENV_ERROR string
  | INK_DUPLICATE_NAME "string option" string
  | TypeError
  | ENOENT string
  | Rejected string
  | UnrecognizedTaskError string
  | MissingRequiredArgumentError string
  | InvalidArgumentError string string val
  | RunSuperNotDefinedError string
  | ParamAlreadyDefinedError string
  | RequiredParamAfterOptionalError string
  | ParamAfterVariadicError string

type_synonym 'w outcome = "(error + val) \<times> 'w"

section \<open>The runtime environment and actions (types/runtime.ts)\<close>

text \<open>
  \<^verbatim>\<open>RunSuperFunction\<close>: a callable with an \<^verbatim>\<open>isDefined\<close> flag. The argument is optional.
  Asynchronous results are modelled by their settled outcome: \<open>Inl\<close> a rejection, \<open>Inr\<close>
  the resolved value, together with the world as the call left it.
\<close>

record 'w RunSuperFunction =
  isDefined :: bool
  call :: "TaskArguments option \<Rightarrow> 'w \<Rightarrow> 'w outcome"

text \<open>\<^verbatim>\<open>RunTaskFunction = (name, taskArguments?) => Promise<any>\<close>.\<close>

type_synonym 'w RunTaskFunction = "string \<Rightarrow> TaskArguments option \<Rightarrow> 'w \<Rightarrow> 'w outcome"

text \<open>
  The parts of \<^verbatim>\<open>RedspotConfig\<close> and \<^verbatim>\<open>RedspotArguments\<close> that the compile tasks read:
  \<^verbatim>\<open>config.paths.artifacts\<close>, \<^verbatim>\<open>config.contract.ink\<close> and \<^verbatim>\<open>redspotArguments.verbose\<close>.
\<close>

record RedspotConfig =
  paths_artifacts :: string
  contract_ink :: json

record RedspotArguments =
  verbose :: bool

text \<open>
  \<^verbatim>\<open>RedspotRuntimeEnvironment\<close>. The fields \<^verbatim>\<open>tasks\<close>, \<^verbatim>\<open>network\<close> and \<^verbatim>\<open>artifacts\<close> are
  never read by the code modelled here and are left out.
\<close>

record 'w RedspotRuntimeEnvironment =
  config :: RedspotConfig
  redspotArguments :: RedspotArguments
  run :: "'w RunTaskFunction"

text \<open>\<^verbatim>\<open>ActionType = (taskArgs, env, runSuper) => Promise<any>\<close>.\<close>

type_synonym 'w ActionType =
  "TaskArguments \<Rightarrow> 'w RedspotRuntimeEnvironment \<Rightarrow> 'w RunSuperFunction \<Rightarrow> 'w \<Rightarrow> 'w outcome"

section \<open>The world the compile tasks act on\<close>

text \<open>
  What the compile tasks do to their surroundings, in the order they do it. A read is
  recorded with the record it returned.
\<close>

datatype event =
    CheckEnv string
  | GetCompilerInput val
  | Compile InkInput bool
  | EnsureDir string
  | ReadJSON string json
  | WriteJSON string json
  | ConsoleLog string

text \<open>
  The file system holds JSON files by path and the directories made; \<open>events\<close> is the
  history of effects. Two paths are the same file when they are the same string.
\<close>

record world =
  files :: "string \<rightharpoonup> json"
  dirs :: "string set"
  events :: "event list"

definition emit :: "event \<Rightarrow> world \<Rightarrow> world" where
  "emit e w = w\<lparr>events := events w @ [e]\<rparr>"

definition ensureDirSync :: "string \<Rightarrow> world \<Rightarrow> world" where
  "ensureDirSync dir w = emit (EnsureDir dir) (w\<lparr>dirs := insert dir (dirs w)\<rparr>)"

definition readJSONSync :: "string \<Rightarrow> world \<Rightarrow> (error + json) \<times> world" where
  "readJSONSync file w =
     (case files w file of
        None \<Rightarrow> (Inl (ENOENT file), w)
      | Some obj \<Rightarrow> (Inr obj, emit (ReadJSON file obj) w))"

definition writeJSONSync :: "string \<Rightarrow> json \<Rightarrow> world \<Rightarrow> world" where
  "writeJSONSync file obj w = emit (WriteJSON file obj) (w\<lparr>files := (files w)(file \<mapsto> obj)\<rparr>)"

definition console_log :: "string \<Rightarrow> world \<Rightarrow> world" where
  "console_log line w = emit (ConsoleLog line) w"

text \<open>
  The collaborators the compile tasks import from outside this file: \<^verbatim>\<open>checkEnv\<close>,
  \<^verbatim>\<open>getCompilerInput\<close>, \<^verbatim>\<open>compile\<close> and Node's \<^verbatim>\<open>path.resolve\<close>. Each is a parameter. A
  promise that rejects is \<open>Inl\<close> with its message. The compiler and the input discovery
  see the files; the compiler may add to them.
\<close>

record collaborators =
  checkEnv :: "string \<Rightarrow> string + bool"
  getCompilerInput :: "json \<Rightarrow> val \<Rightarrow> (string \<rightharpoonup> json) \<Rightarrow> string + InkInput"
  compile :: "InkInput \<Rightarrow> bool \<Rightarrow> (string \<rightharpoonup> json) \<Rightarrow> (string + InkOutput list) \<times> (string \<rightharpoonup> json)"
  path_resolve :: "string \<Rightarrow> string \<Rightarrow> string"

section \<open>The compile tasks\<close>

text \<open>
  Modelled from the spec: the task-name constants come from \<^verbatim>\<open>./task-names\<close>, which is not
  among the sources. The spec names the pipeline \<^verbatim>\<open>compile\<close> and its stages \<^verbatim>\<open>pre-check\<close>,
  \<^verbatim>\<open>gather-input\<close>, \<^verbatim>\<open>invoke-compiler\<close> and \<^verbatim>\<open>materialize-output\<close>.
\<close>

definition TASK_COMPILE_INK :: string where
  "TASK_COMPILE_INK = ''compile''"

definition TASK_COMPILE_INK_PRE :: string where
  "TASK_COMPILE_INK_PRE = ''pre-check''"

definition TASK_COMPILE_INK_INPUT :: string where
  "TASK_COMPILE_INK_INPUT = ''gather-input''"

definition TASK_COMPILE_INK_EXEC :: string where
  "TASK_COMPILE_INK_EXEC = ''invoke-compiler''"

definition TASK_COMPILE_INK_OUTPUT :: string where
  "TASK_COMPILE_INK_OUTPUT = ''materialize-output''"

subsection \<open>TASK_COMPILE_INK_PRE\<close>

definition compile_ink_pre :: "collaborators \<Rightarrow> world ActionType" where
  "compile_ink_pre c taskArgs env runSuper w =
     (let w1 = emit (CheckEnv ''0.8.0'') w in
      case checkEnv c ''0.8.0'' of
        Inl msg \<Rightarrow> (Inl (Rejected msg), w1)
      | Inr isValidEnv \<Rightarrow>
          if \<not> isValidEnv then (Inl (INK_ENV_ERROR ''v0.8.0''), w1)
          else (Inr Undefined, w1))"

subsection \<open>TASK_COMPILE_INK_INPUT\<close>

definition compile_ink_input :: "collaborators \<Rightarrow> world ActionType" where
  "compile_ink_input c taskArgs env runSuper w =
     (let sourcePattern = arg taskArgs ''sourcePattern'';
          w1 = emit (GetCompilerInput sourcePattern) w in
      case getCompilerInput c (contract_ink (config env)) sourcePattern (files w1) of
        Inl msg \<Rightarrow> (Inl (Rejected msg), w1)
      | Inr input \<Rightarrow> (Inr (VInput input), w1))"

subsection \<open>TASK_COMPILE_INK_EXEC\<close>

text \<open>
  The action's parameter is declared \<^verbatim>\<open>{ input: InkInput }\<close>. A value of another shape has
  no \<^verbatim>\<open>sources.length\<close> and the read throws.
\<close>

definition compile_ink_exec :: "collaborators \<Rightarrow> world ActionType" where
  "compile_ink_exec c taskArgs env runSuper w =
     (case arg taskArgs ''input'' of
        VInput input \<Rightarrow>
          if sources input = [] then (Inr Undefined, w)
          else
            (let w1 = emit (Compile input (verbose (redspotArguments env))) w in
             case compile c input (verbose (redspotArguments env)) (files w1) of
               (Inl msg, fs) \<Rightarrow> (Inl (Rejected msg), w1\<lparr>files := fs\<rparr>)
             | (Inr output, fs) \<Rightarrow> (Inr (VOutput output), w1\<lparr>files := fs\<rparr>))
      | _ \<Rightarrow> (Inl TypeError, w))"

subsection \<open>TASK_COMPILE_INK_OUTPUT\<close>

text \<open>\<^verbatim>\<open>names.indexOf(x)\<close>: the first index of \<open>x\<close>, or \<open>-1\<close>.\<close>

fun indexOf :: "'a list \<Rightarrow> 'a \<Rightarrow> int" where
  "indexOf [] x = -1"
| "indexOf (y # ys) x =
     (if y = x then 0
      else (let i = indexOf ys x in if i < 0 then -1 else i + 1))"

text \<open>\<^verbatim>\<open>paths[i]\<close>: an index outside the array reads \<^verbatim>\<open>undefined\<close>.\<close>

definition array_get :: "'a list \<Rightarrow> int \<Rightarrow> 'a option" where
  "array_get xs i = (if 0 \<le> i \<and> i < int (length xs) then Some (xs ! nat i) else None)"

text \<open>
  \<^verbatim>\<open>delete abiJSON.source.wasm\<close>. Reading \<^verbatim>\<open>abiJSON.source\<close> throws when \<^verbatim>\<open>abiJSON\<close> is
  \<^verbatim>\<open>null\<close>; the \<^verbatim>\<open>delete\<close> throws when \<^verbatim>\<open>abiJSON.source\<close> is \<^verbatim>\<open>undefined\<close> or \<^verbatim>\<open>null\<close>.
  \<open>has_source\<close> says that neither happens. Deleting a property that a value does not
  have leaves the value as it is.
\<close>

definition has_source :: "json \<Rightarrow> bool" where
  "has_source abiJSON =
     (case abiJSON of
        JObj members \<Rightarrow>
          (case map_of members ''source'' of
             None \<Rightarrow> False
           | Some JNull \<Rightarrow> False
           | Some _ \<Rightarrow> True)
      | _ \<Rightarrow> False)"

fun delete_wasm_in :: "(string \<times> json) list \<Rightarrow> (string \<times> json) list" where
  "delete_wasm_in [] = []"
| "delete_wasm_in ((k, v) # members) =
     (if k = ''source''
      then (k, (case v of JObj src \<Rightarrow> JObj (filter (\<lambda>(k', _). k' \<noteq> ''wasm'') src) | _ \<Rightarrow> v))
             # members
      else (k, v) # delete_wasm_in members)"

definition delete_source_wasm :: "json \<Rightarrow> json" where
  "delete_source_wasm abiJSON =
     (case abiJSON of JObj members \<Rightarrow> JObj (delete_wasm_in members) | _ \<Rightarrow> abiJSON)"

text \<open>
  The body of \<^verbatim>\<open>for (const target of output)\<close>, with the two arrays \<^verbatim>\<open>names\<close> and
  \<^verbatim>\<open>paths\<close> it grows. An error leaves the world as the statements before it made it.
\<close>

fun for_target_of :: "(string \<Rightarrow> string \<Rightarrow> string) \<Rightarrow> string \<Rightarrow> string list \<Rightarrow> string list \<Rightarrow>
    InkOutput list \<Rightarrow> world \<Rightarrow> (error + unit) \<times> world" where
  "for_target_of resolve artifacts names paths [] w = (Inr (), w)"
| "for_target_of resolve artifacts names paths (target # output) w =
     (if name target \<in> set names
      then (Inl (INK_DUPLICATE_NAME (array_get paths (indexOf names (name target)))
                   (contract target)), w)
      else
        (case readJSONSync (contract target) w of
           (Inl e, w1) \<Rightarrow> (Inl e, w1)
         | (Inr abiJSON, w1) \<Rightarrow>
             (let w2 = writeJSONSync (resolve artifacts (name target @ ''.contract'')) abiJSON w1
              in if \<not> has_source abiJSON then (Inl TypeError, w2)
                 else
                   (let w3 = writeJSONSync (resolve artifacts (name target @ ''.json''))
                               (delete_source_wasm abiJSON) w2
                    in for_target_of resolve artifacts (names @ [name target])
                         (paths @ [contract target]) output w3))))"

text \<open>
  The success line. The source prints an emoji before the text and colours the directory
  with \<^verbatim>\<open>chalk.cyan\<close>; both are left out of the string.
\<close>

definition success_message :: "string \<Rightarrow> string" where
  "success_message artifacts =
     ''Compile successfully! You can find all artifacts at '' @ artifacts"

text \<open>
  What \<^verbatim>\<open>for (const target of output)\<close> iterates over. The parameter is declared
  \<^verbatim>\<open>output: InkOutput[]\<close>, and an array of records gives its records. The argument is
  whatever the stage before returned: an empty array or an empty string gives nothing to
  iterate; any other value is not iterable, or its first element has no \<^verbatim>\<open>contract\<close> path
  for \<^verbatim>\<open>readJSONSync\<close>, and the loop throws a \<open>TypeError\<close> before it has any effect.
\<close>

definition targets_of :: "val \<Rightarrow> InkOutput list option" where
  "targets_of v =
     (case v of
        VOutput targets \<Rightarrow> Some targets
      | VList [] \<Rightarrow> Some []
      | VStr [] \<Rightarrow> Some []
      | _ \<Rightarrow> None)"

text \<open>
  The action's parameter is declared \<^verbatim>\<open>{ input: InkInput; output: InkOutput[] }\<close>. The
  \<^verbatim>\<open>output\<close> argument is first touched by the loop, after the directory is made.
\<close>

definition compile_ink_output :: "collaborators \<Rightarrow> world ActionType" where
  "compile_ink_output c taskArgs env runSuper w =
     (case arg taskArgs ''input'' of
        VInput input \<Rightarrow>
          if sources input = [] then (Inr Undefined, w)
          else
            (let artifacts = paths_artifacts (config env);
                 w1 = ensureDirSync artifacts w in
             case targets_of (arg taskArgs ''output'') of
               Some output \<Rightarrow>
                 (case for_target_of (path_resolve c) artifacts [] [] output w1 of
                    (Inl e, w2) \<Rightarrow> (Inl e, w2)
                  | (Inr _, w2) \<Rightarrow>
                      (Inr Undefined,
                       console_log (success_message artifacts) (console_log [] w2)))
             | None \<Rightarrow> (Inl TypeError, w1))
      | _ \<Rightarrow> (Inl TypeError, w))"

subsection \<open>TASK_COMPILE_INK\<close>

text \<open>
  The top-level action only calls \<^verbatim>\<open>run\<close>, so it works on any world. A stage that rejects
  ends the action with that rejection.
\<close>

definition compile_ink :: "'w ActionType" where
  "compile_ink taskArgs env runSuper w =
     (let sourcePattern = arg taskArgs ''sourcePattern'' in
      case run env TASK_COMPILE_INK_PRE None w of
        (Inl e, w1) \<Rightarrow> (Inl e, w1)
      | (Inr _, w1) \<Rightarrow>
          (case run env TASK_COMPILE_INK_INPUT (Some [''sourcePattern'' \<mapsto> sourcePattern]) w1 of
             (Inl e, w2) \<Rightarrow> (Inl e, w2)
           | (Inr input, w2) \<Rightarrow>
               (case run env TASK_COMPILE_INK_EXEC (Some [''input'' \<mapsto> input]) w2 of
                  (Inl e, w3) \<Rightarrow> (Inl e, w3)
                | (Inr output, w3) \<Rightarrow>
                    (case run env TASK_COMPILE_INK_OUTPUT
                            (Some [''input'' \<mapsto> input, ''output'' \<mapsto> output]) w3 of
                       (Inl e, w4) \<Rightarrow> (Inl e, w4)
                     | (Inr _, w4) \<Rightarrow> (Inr Undefined, w4)))))"

text \<open>
  To observe which subtasks an action runs, a runner is wrapped so that every call
  through it is appended, with its arguments, to a list kept beside the world.
\<close>

definition recording :: "'w RunTaskFunction \<Rightarrow> ('w \<times> (string \<times> TaskArguments option) list) RunTaskFunction" where
  "recording r taskName taskArgs =
     (\<lambda>(w, calls). case r taskName taskArgs w of
                      (res, w') \<Rightarrow> (res, (w', calls @ [(taskName, taskArgs)])))"

subsection \<open>Vocabulary for stating what the output stage does\<close>

text \<open>
  The effects of the loop body on one target whose contract file holds \<open>abiJSON\<close>: the
  read, then the full record written to \<^verbatim>\<open><name>.contract\<close>, then the record without
  \<^verbatim>\<open>source.wasm\<close> written to \<^verbatim>\<open><name>.json\<close>, both resolved against the artifact directory.
\<close>

definition persisted :: "(string \<Rightarrow> string \<Rightarrow> string) \<Rightarrow> string \<Rightarrow> InkOutput \<Rightarrow> json \<Rightarrow> event list" where
  "persisted resolve artifacts target abiJSON =
     [ReadJSON (contract target) abiJSON,
      WriteJSON (resolve artifacts (name target @ ''.contract'')) abiJSON,
      WriteJSON (resolve artifacts (name target @ ''.json'')) (delete_source_wasm abiJSON)]"

text \<open>
  What it is for a record to be another one with \<^verbatim>\<open>source.wasm\<close> removed and nothing else
  changed, said by what can be observed of a record: the names of its properties, in
  their order, and the value under each name. \<open>only_wasm_removed\<close> compares the two
  \<^verbatim>\<open>source\<close> values: an object loses its \<^verbatim>\<open>wasm\<close> property and keeps every other property
  and their order; a value that is not an object stays as it is. The whole record keeps
  its property names, their order, and every value but the one under \<^verbatim>\<open>source\<close>.
\<close>

definition property :: "json \<Rightarrow> string \<Rightarrow> json option" where
  "property obj k = (case obj of JObj members \<Rightarrow> map_of members k | _ \<Rightarrow> None)"

definition property_names :: "json \<Rightarrow> string list" where
  "property_names obj = (case obj of JObj members \<Rightarrow> map fst members | _ \<Rightarrow> [])"

definition is_object :: "json \<Rightarrow> bool" where
  "is_object obj = (case obj of JObj members \<Rightarrow> True | _ \<Rightarrow> False)"

definition only_wasm_removed :: "json \<Rightarrow> json \<Rightarrow> bool" where
  "only_wasm_removed src src' \<longleftrightarrow>
     (if is_object src
      then is_object src'
         \<and> property_names src' = filter (\<lambda>k. k \<noteq> ''wasm'') (property_names src)
         \<and> property src' ''wasm'' = None
         \<and> (\<forall>k. k \<noteq> ''wasm'' \<longrightarrow> property src' k = property src k)
      else src' = src)"

definition only_source_wasm_removed :: "json \<Rightarrow> json \<Rightarrow> bool" where
  "only_source_wasm_removed full stripped \<longleftrightarrow>
     is_object full \<and> is_object stripped
   \<and> property_names stripped = property_names full
   \<and> (\<forall>k. k \<noteq> ''source'' \<longrightarrow> property stripped k = property full k)
   \<and> (case (property full ''source'', property stripped ''source'') of
         (Some src, Some src') \<Rightarrow> only_wasm_removed src src'
       | _ \<Rightarrow> False)"

text \<open>A contract file that can be read and whose record has a \<^verbatim>\<open>source\<close> member.\<close>

definition contract_readable :: "(string \<rightharpoonup> json) \<Rightarrow> string \<Rightarrow> bool" where
  "contract_readable fs file = (case fs file of None \<Rightarrow> False | Some abiJSON \<Rightarrow> has_source abiJSON)"

text \<open>The files after the writes among a list of events, applied in order.\<close>

definition write_of :: "event \<Rightarrow> (string \<rightharpoonup> json) \<Rightarrow> (string \<rightharpoonup> json)" where
  "write_of e fs = (case e of WriteJSON file obj \<Rightarrow> fs(file \<mapsto> obj) | _ \<Rightarrow> fs)"

definition written :: "event list \<Rightarrow> (string \<rightharpoonup> json) \<Rightarrow> (string \<rightharpoonup> json)" where
  "written es fs = fold write_of es fs"

section \<open>The task engine\<close>

text \<open>
  Modelled from the spec: the engine itself (the task definition builder, the registry
  with override chaining, argument resolution and the runner) is not among the sources;
  \<^verbatim>\<open>types/runtime.ts\<close> declares its types only. The records below follow those
  declarations; the functions follow sections 3 and 4 of the spec.
\<close>

subsection \<open>Argument types and parameter definitions\<close>

text \<open>
  \<^verbatim>\<open>ArgumentType\<close> and \<^verbatim>\<open>CLIArgumentType\<close>. \<open>validate\<close> answers whether the value is of the
  type (the source's method throws when it is not). \<open>parse\<close> is present for a CLI type
  only; it answers \<open>None\<close> where the source's method throws.
\<close>

record ArgumentType =
  type_name :: string
  validate :: "val \<Rightarrow> bool"
  parse :: "(string \<Rightarrow> val option) option"

record ParamDefinition =
  param_name :: string
  defaultValue :: "val option"
  param_type :: ArgumentType
  param_description :: "string option"
  isOptional :: bool
  isFlag :: bool
  isVariadic :: bool

text \<open>
  \<^verbatim>\<open>TaskDefinition\<close>. \<^verbatim>\<open>paramDefinitions\<close> is the map of the named parameters and flags, kept
  as the list of its entries in insertion order, each under its own name.
\<close>

record 'w TaskDefinition =
  task_name :: string
  task_description :: "string option"
  action :: "'w ActionType"
  isSubtask :: bool
  paramDefinitions :: "ParamDefinition list"
  positionalParamDefinitions :: "ParamDefinition list"

definition boolean :: ArgumentType where
  "boolean =
     \<lparr>type_name = ''boolean'',
      validate = (\<lambda>v. case v of VBool b \<Rightarrow> True | _ \<Rightarrow> False),
      parse = Some (\<lambda>s. if s = ''true'' then Some (VBool True)
                         else if s = ''false'' then Some (VBool False) else None)\<rparr>"

definition string_type :: ArgumentType where
  "string_type =
     \<lparr>type_name = ''string'',
      validate = (\<lambda>v. case v of VStr s \<Rightarrow> True | _ \<Rightarrow> False),
      parse = Some (\<lambda>s. Some (VStr s))\<rparr>"

subsection \<open>The builder (spec 4.2)\<close>

text \<open>
  Modelled from the spec: each add-method appends one parameter definition or fails at
  once. Checked at the call: the name is new in the schema; no positional parameter
  follows a variadic one; no required positional parameter follows an optional one.
  The optional trailing arguments of the TypeScript signatures are passed explicitly.
\<close>

definition param_names :: "'w TaskDefinition \<Rightarrow> string list" where
  "param_names d =
     map param_name (paramDefinitions d) @ map param_name (positionalParamDefinitions d)"

definition addParam :: "string \<Rightarrow> string option \<Rightarrow> val option \<Rightarrow> ArgumentType \<Rightarrow> bool \<Rightarrow>
    'w TaskDefinition \<Rightarrow> error + 'w TaskDefinition" where
  "addParam n descr dflt ty opt d =
     (if n \<in> set (param_names d) then Inl (ParamAlreadyDefinedError n)
      else Inr (d\<lparr>paramDefinitions := paramDefinitions d @
             [\<lparr>param_name = n, defaultValue = dflt, param_type = ty, param_description = descr,
               isOptional = opt, isFlag = False, isVariadic = False\<rparr>]\<rparr>))"

definition addOptionalParam :: "string \<Rightarrow> string option \<Rightarrow> val option \<Rightarrow> ArgumentType \<Rightarrow>
    'w TaskDefinition \<Rightarrow> error + 'w TaskDefinition" where
  "addOptionalParam n descr dflt ty d = addParam n descr dflt ty True d"

definition addFlag :: "string \<Rightarrow> string option \<Rightarrow> 'w TaskDefinition \<Rightarrow> error + 'w TaskDefinition" where
  "addFlag n descr d =
     (if n \<in> set (param_names d) then Inl (ParamAlreadyDefinedError n)
      else Inr (d\<lparr>paramDefinitions := paramDefinitions d @
             [\<lparr>param_name = n, defaultValue = Some (VBool False), param_type = boolean,
               param_description = descr, isOptional = True, isFlag = True,
               isVariadic = False\<rparr>]\<rparr>))"

definition add_positional :: "bool \<Rightarrow> string \<Rightarrow> string option \<Rightarrow> val option \<Rightarrow> ArgumentType \<Rightarrow> bool \<Rightarrow>
    'w TaskDefinition \<Rightarrow> error + 'w TaskDefinition" where
  "add_positional variadic n descr dflt ty opt d =
     (if n \<in> set (param_names d) then Inl (ParamAlreadyDefinedError n)
      else if list_ex isVariadic (positionalParamDefinitions d)
        then Inl (ParamAfterVariadicError n)
      else if \<not> opt \<and> list_ex isOptional (positionalParamDefinitions d)
        then Inl (RequiredParamAfterOptionalError n)
      else Inr (d\<lparr>positionalParamDefinitions := positionalParamDefinitions d @
             [\<lparr>param_name = n, defaultValue = dflt, param_type = ty, param_description = descr,
               isOptional = opt, isFlag = False, isVariadic = variadic\<rparr>]\<rparr>))"

definition addPositionalParam :: "string \<Rightarrow> string option \<Rightarrow> val option \<Rightarrow> ArgumentType \<Rightarrow> bool \<Rightarrow>
    'w TaskDefinition \<Rightarrow> error + 'w TaskDefinition" where
  "addPositionalParam = add_positional False"

definition addOptionalPositionalParam :: "string \<Rightarrow> string option \<Rightarrow> val option \<Rightarrow> ArgumentType \<Rightarrow>
    'w TaskDefinition \<Rightarrow> error + 'w TaskDefinition" where
  "addOptionalPositionalParam n descr dflt ty d = add_positional False n descr dflt ty True d"

definition addVariadicPositionalParam :: "string \<Rightarrow> string option \<Rightarrow> val option \<Rightarrow> ArgumentType \<Rightarrow> bool \<Rightarrow>
    'w TaskDefinition \<Rightarrow> error + 'w TaskDefinition" where
  "addVariadicPositionalParam = add_positional True"

definition addOptionalVariadicPositionalParam :: "string \<Rightarrow> string option \<Rightarrow> val option \<Rightarrow>
    ArgumentType \<Rightarrow> 'w TaskDefinition \<Rightarrow> error + 'w TaskDefinition" where
  "addOptionalVariadicPositionalParam n descr dflt ty d = add_positional True n descr dflt ty True d"

definition setDescription :: "string \<Rightarrow> 'w TaskDefinition \<Rightarrow> error + 'w TaskDefinition" where
  "setDescription descr d = Inr (d\<lparr>task_description := Some descr\<rparr>)"

definition setAction :: "'w ActionType \<Rightarrow> 'w TaskDefinition \<Rightarrow> error + 'w TaskDefinition" where
  "setAction act d = Inr (d\<lparr>action := act\<rparr>)"

text \<open>The invariant of a positional schema: no required parameter after an optional one.\<close>

fun required_first :: "ParamDefinition list \<Rightarrow> bool" where
  "required_first [] = True"
| "required_first (p # ps) = ((isOptional p \<longrightarrow> list_all isOptional ps) \<and> required_first ps)"

text \<open>The fluent chain after \<^verbatim>\<open>task(...)\<close>: each call acts on what the one before returned.\<close>

fun chained :: "('w TaskDefinition \<Rightarrow> error + 'w TaskDefinition) list \<Rightarrow> 'w TaskDefinition \<Rightarrow>
    error + 'w TaskDefinition" where
  "chained [] d = Inr d"
| "chained (m # ms) d = (case m d of Inl e \<Rightarrow> Inl e | Inr d' \<Rightarrow> chained ms d')"

subsection \<open>The registry and override chaining (spec 4.3)\<close>

text \<open>
  Modelled from the spec: a declaration \<^verbatim>\<open>task(name, description?, action)\<close> or
  \<^verbatim>\<open>subtask(...)\<close>, followed by its builder calls, creates a definition with an empty
  schema and stores it under the name. The definition stored before, if any, is kept
  behind it as a fixed snapshot. The registry so maps a name to its definitions, the
  current one first and each followed by the one it overrode. Nothing is ever removed.
\<close>

type_synonym 'w TasksMap = "string \<rightharpoonup> 'w TaskDefinition list"

record 'w task_decl =
  as_subtask :: bool
  described :: "string option"
  with_action :: "'w ActionType"
  builder_calls :: "('w TaskDefinition \<Rightarrow> error + 'w TaskDefinition) list"

definition build :: "string \<Rightarrow> 'w task_decl \<Rightarrow> error + 'w TaskDefinition" where
  "build n decl =
     chained (builder_calls decl)
       \<lparr>task_name = n, task_description = described decl, action = with_action decl,
        isSubtask = as_subtask decl, paramDefinitions = [], positionalParamDefinitions = []\<rparr>"

definition overridden :: "'w TasksMap \<Rightarrow> string \<Rightarrow> 'w TaskDefinition list" where
  "overridden tasks n = (case tasks n of None \<Rightarrow> [] | Some defs \<Rightarrow> defs)"

definition declare_task :: "string \<Rightarrow> 'w task_decl \<Rightarrow> 'w TasksMap \<Rightarrow> error + 'w TasksMap" where
  "declare_task n decl tasks =
     (case build n decl of
        Inl e \<Rightarrow> Inl e
      | Inr d \<Rightarrow> Inr (tasks(n \<mapsto> d # overridden tasks n)))"

fun declare_all :: "string \<Rightarrow> 'w task_decl list \<Rightarrow> 'w TasksMap \<Rightarrow> error + 'w TasksMap" where
  "declare_all n [] tasks = Inr tasks"
| "declare_all n (decl # decls) tasks =
     (case declare_task n decl tasks of
        Inl e \<Rightarrow> Inl e
      | Inr tasks' \<Rightarrow> declare_all n decls tasks')"

subsection \<open>Argument resolution (spec 4.5, step 2)\<close>

text \<open>
  Modelled from the spec: the raw arguments are a mapping by name and a slice of
  positional values. First every parameter is bound: a named parameter or a flag to the
  value under its name, else to its default when it is optional, else resolution fails
  with \<open>MissingRequiredArgumentError\<close>; a positional parameter likewise, where a value
  under its name counts, as the compile task passes \<^verbatim>\<open>{ sourcePattern }\<close>, and otherwise the
  next value of the slice is consumed, a variadic parameter consuming all that remain.
  Then every bound value is checked in the same order: a raw string is parsed first when
  the type is a CLI type, and the value is validated, a variadic parameter's sequence
  value by value; the first failure is an \<open>InvalidArgumentError\<close>. Arguments that no
  parameter declares are passed on as given.
\<close>

record raw_arguments =
  named :: TaskArguments
  positional :: "val list"

definition default_of :: "ParamDefinition \<Rightarrow> val" where
  "default_of p = (case defaultValue p of None \<Rightarrow> Undefined | Some v \<Rightarrow> v)"

type_synonym binding = "ParamDefinition \<times> val \<times> bool"

definition bound :: "binding \<Rightarrow> error + binding list \<Rightarrow> error + binding list" where
  "bound b rest = (case rest of Inl e \<Rightarrow> Inl e | Inr bs \<Rightarrow> Inr (b # bs))"

definition unless_optional :: "ParamDefinition \<Rightarrow> error + binding list \<Rightarrow> error + binding list" where
  "unless_optional p rest =
     (if isOptional p then bound (p, default_of p, False) rest
      else Inl (MissingRequiredArgumentError (param_name p)))"

fun bind_named :: "ParamDefinition list \<Rightarrow> TaskArguments \<Rightarrow> error + binding list" where
  "bind_named [] given = Inr []"
| "bind_named (p # ps) given =
     (case given (param_name p) of
        Some v \<Rightarrow> bound (p, v, True) (bind_named ps given)
      | None \<Rightarrow> unless_optional p (bind_named ps given))"

fun bind_positional :: "ParamDefinition list \<Rightarrow> TaskArguments \<Rightarrow> val list \<Rightarrow> error + binding list" where
  "bind_positional [] given slice = Inr []"
| "bind_positional (p # ps) given slice =
     (case given (param_name p) of
        Some v \<Rightarrow> bound (p, v, True) (bind_positional ps given slice)
      | None \<Rightarrow>
          (case slice of
             [] \<Rightarrow> unless_optional p (bind_positional ps given [])
           | v # rest \<Rightarrow>
               if isVariadic p then bound (p, VList slice, True) (bind_positional ps given [])
               else bound (p, v, True) (bind_positional ps given rest)))"

definition bind_arguments :: "'w TaskDefinition \<Rightarrow> raw_arguments \<Rightarrow> error + binding list" where
  "bind_arguments d raw =
     (case bind_named (paramDefinitions d) (named raw) of
        Inl e \<Rightarrow> Inl e
      | Inr bs \<Rightarrow>
          (case bind_positional (positionalParamDefinitions d) (named raw) (positional raw) of
             Inl e \<Rightarrow> Inl e
           | Inr bs' \<Rightarrow> Inr (bs @ bs')))"

definition check_one :: "ParamDefinition \<Rightarrow> bool \<Rightarrow> val \<Rightarrow> error + val" where
  "check_one p from_raw v =
     (let ty = param_type p;
          parsed = (case (from_raw, v, parse ty) of
                      (True, VStr s, Some parser) \<Rightarrow> parser s
                    | _ \<Rightarrow> Some v)
      in case parsed of
           None \<Rightarrow> Inl (InvalidArgumentError (param_name p) (type_name ty) v)
         | Some v' \<Rightarrow>
             if validate ty v' then Inr v'
             else Inl (InvalidArgumentError (param_name p) (type_name ty) v'))"

fun check_each :: "ParamDefinition \<Rightarrow> bool \<Rightarrow> val list \<Rightarrow> error + val list" where
  "check_each p from_raw [] = Inr []"
| "check_each p from_raw (v # vs) =
     (case check_one p from_raw v of
        Inl e \<Rightarrow> Inl e
      | Inr v' \<Rightarrow> (case check_each p from_raw vs of Inl e \<Rightarrow> Inl e | Inr vs' \<Rightarrow> Inr (v' # vs')))"

definition check_binding :: "binding \<Rightarrow> error + val" where
  "check_binding b =
     (case b of (p, v, from_raw) \<Rightarrow>
        (case (isVariadic p, v) of
           (True, VList vs) \<Rightarrow>
             (case check_each p from_raw vs of Inl e \<Rightarrow> Inl e | Inr vs' \<Rightarrow> Inr (VList vs'))
         | _ \<Rightarrow> check_one p from_raw v))"

fun check_bindings :: "binding list \<Rightarrow> TaskArguments \<Rightarrow> error + TaskArguments" where
  "check_bindings [] resolved = Inr resolved"
| "check_bindings (b # bs) resolved =
     (case check_binding b of
        Inl e \<Rightarrow> Inl e
      | Inr v \<Rightarrow> check_bindings bs (resolved(param_name (fst b) \<mapsto> v)))"

definition resolve_arguments :: "'w TaskDefinition \<Rightarrow> raw_arguments \<Rightarrow> error + TaskArguments" where
  "resolve_arguments d raw =
     (case bind_arguments d raw of
        Inl e \<Rightarrow> Inl e
      | Inr bs \<Rightarrow> check_bindings bs (named raw))"

text \<open>
  The parameters of a schema that the raw arguments give no value: no value under the
  name and, for a positional parameter, none left in the slice at its turn.
\<close>

fun absent_positional :: "ParamDefinition list \<Rightarrow> TaskArguments \<Rightarrow> val list \<Rightarrow> ParamDefinition list" where
  "absent_positional [] given slice = []"
| "absent_positional (p # ps) given slice =
     (case given (param_name p) of
        Some v \<Rightarrow> absent_positional ps given slice
      | None \<Rightarrow>
          (case slice of
             [] \<Rightarrow> p # absent_positional ps given []
           | v # rest \<Rightarrow> absent_positional ps given (if isVariadic p then [] else rest)))"

definition absent_params :: "'w TaskDefinition \<Rightarrow> raw_arguments \<Rightarrow> ParamDefinition list" where
  "absent_params d raw =
     filter (\<lambda>p. named raw (param_name p) = None) (paramDefinitions d)
     @ absent_positional (positionalParamDefinitions d) (named raw) (positional raw)"

subsection \<open>The runner (spec 4.5)\<close>

text \<open>
  Modelled from the spec: running the definitions stored under a name resolves the raw
  arguments against the schema of the current definition and, when that succeeds, calls
  its action with the resolved arguments, the environment and a \<^verbatim>\<open>runSuper\<close>. The
  \<^verbatim>\<open>runSuper\<close> is defined when a definition was overridden; calling it runs that snapshot
  in the same way, on the arguments given to it or, when none are given, on the resolved
  arguments of the caller. With nothing overridden, calling it fails with
  \<open>RunSuperNotDefinedError\<close>. The outcome of the action is passed on as it is.
\<close>

fun run_definitions :: "string \<Rightarrow> 'w TaskDefinition list \<Rightarrow> 'w RedspotRuntimeEnvironment \<Rightarrow>
    raw_arguments \<Rightarrow> 'w \<Rightarrow> 'w outcome" where
  "run_definitions n [] env raw w = (Inl (RunSuperNotDefinedError n), w)"
| "run_definitions n (d # older) env raw w =
     (case resolve_arguments d raw of
        Inl e \<Rightarrow> (Inl e, w)
      | Inr resolved \<Rightarrow>
          action d resolved env
            \<lparr>isDefined = (older \<noteq> []),
             call = (\<lambda>taskArguments w'.
                run_definitions n older env
                  \<lparr>named = (case taskArguments of None \<Rightarrow> resolved | Some given \<Rightarrow> given),
                   positional = []\<rparr> w')\<rparr>
            w)"

definition run_task :: "'w TasksMap \<Rightarrow> 'w RedspotRuntimeEnvironment \<Rightarrow> string \<Rightarrow> raw_arguments \<Rightarrow>
    'w \<Rightarrow> 'w outcome" where
  "run_task tasks env n raw w =
     (case overridden tasks n of
        [] \<Rightarrow> (Inl (UnrecognizedTaskError n), w)
      | d # older \<Rightarrow> run_definitions n (d # older) env raw w)"

subsection \<open>The compile tasks in the registry\<close>

text \<open>
  The five \<^verbatim>\<open>subtask(...)\<close> statements of the compile tasks' file, in their order, with
  the builder calls the file chains to two of them. The file gives the parameter no type;
  it is taken to be the string type.
\<close>

definition register_compile_tasks :: "collaborators \<Rightarrow> world TasksMap \<Rightarrow> error + world TasksMap" where
  "register_compile_tasks c tasks =
     (case declare_task TASK_COMPILE_INK_PRE
             \<lparr>as_subtask = True, described = None, with_action = compile_ink_pre c,
              builder_calls = []\<rparr> tasks of
        Inl e \<Rightarrow> Inl e
      | Inr tasks1 \<Rightarrow>
     (case declare_task TASK_COMPILE_INK_INPUT
             \<lparr>as_subtask = True, described = None, with_action = compile_ink_input c,
              builder_calls =
                [addOptionalVariadicPositionalParam ''sourcePattern''
                   (Some ''A glob string that is matched against'') (Some (VList [])) string_type,
                 setAction (compile_ink_input c)]\<rparr> tasks1 of
        Inl e \<Rightarrow> Inl e
      | Inr tasks2 \<Rightarrow>
     (case declare_task TASK_COMPILE_INK_EXEC
             \<lparr>as_subtask = True, described = None, with_action = compile_ink_exec c,
              builder_calls = []\<rparr> tasks2 of
        Inl e \<Rightarrow> Inl e
      | Inr tasks3 \<Rightarrow>
     (case declare_task TASK_COMPILE_INK_OUTPUT
             \<lparr>as_subtask = True, described = None, with_action = compile_ink_output c,
              builder_calls = []\<rparr> tasks3 of
        Inl e \<Rightarrow> Inl e
      | Inr tasks4 \<Rightarrow>
        declare_task TASK_COMPILE_INK
             \<lparr>as_subtask = True, described = None, with_action = compile_ink,
              builder_calls =
                [addOptionalVariadicPositionalParam ''sourcePattern''
                   (Some ''A glob string that is matched against'') (Some (VList [])) string_type,
                 setAction compile_ink]\<rparr> tasks4))))"

text \<open>
  Modelled from the spec: the \<^verbatim>\<open>run\<close> of an environment is bound to the runner. Called by
  an action, it runs the named task on the given arguments, with no positional slice.
\<close>

definition run_through :: "'w TasksMap \<Rightarrow> 'w RedspotRuntimeEnvironment \<Rightarrow> 'w RunTaskFunction" where
  "run_through tasks env n taskArguments w =
     run_task tasks env n
       \<lparr>named = (case taskArguments of None \<Rightarrow> Map.empty | Some given \<Rightarrow> given),
        positional = []\<rparr> w"

subsection \<open>An example project\<close>

text \<open>
  One contract, \<^verbatim>\<open>erc20\<close>, whose compiled bundle lies in \<^verbatim>\<open>target/\<close>; the toolchain is
  installed; artifacts go to \<^verbatim>\<open>artifacts/\<close>. The theorems below are run on it.
\<close>

definition example_bundle :: json where
  "example_bundle =
     JObj [(''source'', JObj [(''hash'', JStr ''0x2a''), (''wasm'', JStr ''0x0061736d'')]),
           (''contract'', JObj [(''name'', JStr ''erc20'')])]"

definition example_collaborators :: collaborators where
  "example_collaborators =
     \<lparr>checkEnv = (\<lambda>version. Inr True),
      getCompilerInput = (\<lambda>ink sourcePattern fs. Inr \<lparr>sources = [''contracts/lib.rs'']\<rparr>),
      compile = (\<lambda>input verbose fs.
         (Inr [\<lparr>name = ''erc20'', contract = ''target/erc20.contract''\<rparr>],
          fs(''target/erc20.contract'' \<mapsto> example_bundle))),
      path_resolve = (\<lambda>dir file. dir @ ''/'' @ file)\<rparr>"

definition example_env :: "'w RedspotRuntimeEnvironment" where
  "example_env =
     \<lparr>config = \<lparr>paths_artifacts = ''artifacts'', contract_ink = JNull\<rparr>,
      redspotArguments = \<lparr>verbose = False\<rparr>,
      run = (\<lambda>taskName taskArgs w. (Inl (UnrecognizedTaskError taskName), w))\<rparr>"

definition no_super :: "'w RunSuperFunction" where
  "no_super = \<lparr>isDefined = False, call = (\<lambda>taskArgs w. (Inl (RunSuperNotDefinedError []), w))\<rparr>"

definition example_world :: world where
  "example_world =
     \<lparr>files = [''target/erc20.contract'' \<mapsto> example_bundle,
               ''target/release/erc20.contract'' \<mapsto> example_bundle],
      dirs = {}, events = []\<rparr>"

definition example_output :: "InkOutput list" where
  "example_output = [\<lparr>name = ''erc20'', contract = ''target/erc20.contract''\<rparr>]"

text \<open>A compiler output in which two bundles carry the name \<^verbatim>\<open>erc20\<close>.\<close>

definition colliding_output :: "InkOutput list" where
  "colliding_output =
     [\<lparr>name = ''erc20'', contract = ''target/erc20.contract''\<rparr>,
      \<lparr>name = ''erc20'', contract = ''target/release/erc20.contract''\<rparr>]"

definition example_input :: InkInput where
  "example_input = \<lparr>sources = [''contracts/lib.rs'']\<rparr>"

text \<open>A runner that knows the four stages of the example project and nothing else.\<close>

definition example_stages :: "world RunTaskFunction" where
  "example_stages taskName taskArgs w =
     (let taskArguments = (case taskArgs of None \<Rightarrow> Map.empty | Some given \<Rightarrow> given) in
      if taskName = TASK_COMPILE_INK_PRE
        then compile_ink_pre example_collaborators taskArguments example_env no_super w
      else if taskName = TASK_COMPILE_INK_INPUT
        then compile_ink_input example_collaborators taskArguments example_env no_super w
      else if taskName = TASK_COMPILE_INK_EXEC
        then compile_ink_exec example_collaborators taskArguments example_env no_super w
      else if taskName = TASK_COMPILE_INK_OUTPUT
        then compile_ink_output example_collaborators taskArguments example_env no_super w
      else (Inl (UnrecognizedTaskError taskName), w))"

text \<open>The registry of the example project after its compile tasks are declared.\<close>

definition example_tasks :: "world TasksMap" where
  "example_tasks =
     (case register_compile_tasks example_collaborators Map.empty of
        Inl e \<Rightarrow> Map.empty
      | Inr tasks \<Rightarrow> tasks)"

subsection \<open>Example tasks for the engine\<close>

text \<open>
  A task \<^verbatim>\<open>greet\<close> declared three times: the base declaration prints a greeting; the
  second prints a louder one and then calls \<^verbatim>\<open>runSuper()\<close>; the third calls \<^verbatim>\<open>runSuper\<close>
  with a name of its own. Beside them a definition with an optional named and an optional
  positional parameter, and one with a required named parameter.
\<close>

definition shown :: "val \<Rightarrow> string" where
  "shown v = (case v of VStr s \<Rightarrow> s | _ \<Rightarrow> ''undefined'')"

definition greet_base :: "world task_decl" where
  "greet_base =
     \<lparr>as_subtask = False, described = Some ''Greets'',
      with_action = (\<lambda>taskArgs env runSuper w.
         (Inr Undefined, console_log (''hello, '' @ shown (arg taskArgs ''name'')) w)),
      builder_calls = [addOptionalParam ''name'' None (Some (VStr ''world'')) string_type]\<rparr>"

definition greet_override :: "world task_decl" where
  "greet_override =
     \<lparr>as_subtask = False, described = Some ''Greets loudly'',
      with_action = (\<lambda>taskArgs env runSuper w.
         call runSuper None (console_log (''HELLO, '' @ shown (arg taskArgs ''name'') @ ''!!'') w)),
      builder_calls = [addOptionalParam ''name'' None (Some (VStr ''world'')) string_type]\<rparr>"

definition greet_again :: "world task_decl" where
  "greet_again =
     \<lparr>as_subtask = False, described = None,
      with_action = (\<lambda>taskArgs env runSuper w.
         call runSuper (Some [''name'' \<mapsto> VStr ''redspot'']) (console_log ''once more'' w)),
      builder_calls = []\<rparr>"

definition greet_once :: "world TasksMap" where
  "greet_once =
     (case declare_task ''greet'' greet_base Map.empty of Inl e \<Rightarrow> Map.empty | Inr tasks \<Rightarrow> tasks)"

definition greet_thrice :: "world TasksMap" where
  "greet_thrice =
     (case declare_all ''greet'' ([greet_base] @ [greet_override, greet_again]) Map.empty of
        Inl e \<Rightarrow> Map.empty
      | Inr tasks \<Rightarrow> tasks)"

definition no_arguments :: raw_arguments where
  "no_arguments = \<lparr>named = Map.empty, positional = []\<rparr>"

definition greet_definition :: "world TaskDefinition" where
  "greet_definition =
     \<lparr>task_name = ''greet'', task_description = Some ''Greets'',
      action = (\<lambda>taskArgs env runSuper w.
         (Inr Undefined, console_log (''hello, '' @ shown (arg taskArgs ''name'')) w)),
      isSubtask = False,
      paramDefinitions =
        [\<lparr>param_name = ''name'', defaultValue = Some (VStr ''world''), param_type = string_type,
          param_description = None, isOptional = True, isFlag = False, isVariadic = False\<rparr>],
      positionalParamDefinitions =
        [\<lparr>param_name = ''punctuation'', defaultValue = Some (VStr ''.''), param_type = string_type,
          param_description = None, isOptional = True, isFlag = False, isVariadic = False\<rparr>]\<rparr>"

definition deploy_definition :: "world TaskDefinition" where
  "deploy_definition =
     \<lparr>task_name = ''deploy'', task_description = None,
      action = (\<lambda>taskArgs env runSuper w. (Inr Undefined, console_log ''deploying'' w)),
      isSubtask = False,
      paramDefinitions =
        [\<lparr>param_name = ''contractName'', defaultValue = None, param_type = string_type,
          param_description = None, isOptional = False, isFlag = False, isVariadic = False\<rparr>],
      positionalParamDefinitions = []\<rparr>"




section \<open>Properties of the compile tasks\<close>

lemma arg_upd_same [simp]: "arg (m(k \<mapsto> v)) k = v"
  by (simp add: arg_def)

lemma map_of_delete_wasm_in:
  "map_of (delete_wasm_in members) ''source'' =
     map_option (\<lambda>v. case v of JObj src \<Rightarrow> JObj (filter (\<lambda>(k', _). k' \<noteq> ''wasm'') src) | _ \<Rightarrow> v)
       (map_of members ''source'')"
  by (induction members rule: delete_wasm_in.induct) auto

lemma has_source_delete: "has_source abiJSON \<Longrightarrow> has_source (delete_source_wasm abiJSON)"
  by (auto simp: has_source_def delete_source_wasm_def map_of_delete_wasm_in
      split: json.splits option.splits)

lemma map_fst_delete_wasm_in: "map fst (delete_wasm_in members) = map fst members"
  by (induction members rule: delete_wasm_in.induct) auto

lemma map_of_delete_wasm_in_other:
  "k \<noteq> ''source'' \<Longrightarrow> map_of (delete_wasm_in members) k = map_of members k"
  by (induction members rule: delete_wasm_in.induct) auto

lemma map_fst_filter_key:
  "map fst (filter (\<lambda>(k', _). k' \<noteq> x) kvs) = filter (\<lambda>k. k \<noteq> x) (map fst kvs)"
  by (induction kvs) auto

lemma map_of_filter_key_same: "map_of (filter (\<lambda>(k', _). k' \<noteq> x) kvs) x = None"
  by (induction kvs) auto

lemma map_of_filter_key_other:
  "k \<noteq> x \<Longrightarrow> map_of (filter (\<lambda>(k', _). k' \<noteq> x) kvs) k = map_of kvs k"
  by (induction kvs) auto

lemma only_wasm_removed_filter:
  "only_wasm_removed v (case v of JObj src \<Rightarrow> JObj (filter (\<lambda>(k', _). k' \<noteq> ''wasm'') src) | _ \<Rightarrow> v)"
  by (cases v)
     (simp_all add: only_wasm_removed_def is_object_def property_def property_names_def
        map_fst_filter_key map_of_filter_key_same map_of_filter_key_other)

lemma delete_source_wasm_only:
  assumes "has_source abiJSON"
  shows "only_source_wasm_removed abiJSON (delete_source_wasm abiJSON)"
proof -
  from assms obtain members v where obj: "abiJSON = JObj members"
    and src: "map_of members ''source'' = Some v"
    by (auto simp: has_source_def split: json.splits option.splits)
  have "map_of (delete_wasm_in members) ''source''
      = Some (case v of JObj src \<Rightarrow> JObj (filter (\<lambda>(k', _). k' \<noteq> ''wasm'') src) | _ \<Rightarrow> v)"
    using src by (simp add: map_of_delete_wasm_in)
  then show ?thesis
    using obj src only_wasm_removed_filter[of v]
    by (simp add: only_source_wasm_removed_def delete_source_wasm_def is_object_def property_def
        property_names_def map_fst_delete_wasm_in map_of_delete_wasm_in_other)
qed

lemma alist_eqI:
  "map fst xs = map fst ys \<Longrightarrow> distinct (map fst xs) \<Longrightarrow> (\<forall>k. map_of xs k = map_of ys k) \<Longrightarrow>
     xs = ys"
proof (induction xs arbitrary: ys)
  case Nil
  then show ?case by simp
next
  case (Cons x xs)
  from Cons.prems(1) obtain y ys' where ys: "ys = y # ys'" and k: "fst x = fst y"
    and ks: "map fst xs = map fst ys'"
    by (cases ys) auto
  from Cons.prems(3) have "map_of (x # xs) (fst x) = map_of ys (fst x)" by blast
  then have v: "snd x = snd y" using ys k by (cases x, cases y) simp
  have "map_of xs k' = map_of ys' k'" for k'
  proof (cases "k' = fst x")
    case True
    with Cons.prems(2) have "k' \<notin> fst ` set xs" by auto
    moreover from this ks have "k' \<notin> fst ` set ys'" by (metis set_map)
    ultimately show ?thesis by (metis map_of_eq_None_iff)
  next
    case False
    with Cons.prems(3)[rule_format, of k'] ys k show ?thesis by (cases x, cases y) auto
  qed
  with Cons.IH[OF ks] Cons.prems(2) have "xs = ys'" by simp
  with ys k v show ?case by (cases x, cases y) simp
qed

lemma only_wasm_removed_unique:
  assumes "only_wasm_removed src a" and "only_wasm_removed src b"
    and "distinct (property_names src)"
  shows "a = b"
proof (cases "is_object src")
  case False
  with assms(1,2) show ?thesis by (simp add: only_wasm_removed_def)
next
  case True
  with assms(1,2) obtain xa xb where a: "a = JObj xa" and b: "b = JObj xb"
    by (auto simp: only_wasm_removed_def is_object_def split: json.splits)
  from True assms(1,2) a b have keys: "map fst xa = map fst xb"
    and ka: "map fst xa = filter (\<lambda>k. k \<noteq> ''wasm'') (property_names src)"
    by (simp_all add: only_wasm_removed_def property_names_def)
  from ka assms(3) have d: "distinct (map fst xa)" by simp
  have "map_of xa k = map_of xb k" for k
    using True assms(1,2) a b
    by (cases "k = ''wasm''") (simp_all add: only_wasm_removed_def property_def)
  with alist_eqI[OF keys d] a b show ?thesis by simp
qed

lemma only_source_wasm_removed_unique:
  assumes "only_source_wasm_removed full a" and "only_source_wasm_removed full b"
    and "distinct (property_names full)"
    and "\<forall>src. property full ''source'' = Some src \<longrightarrow> distinct (property_names src)"
  shows "a = b"
proof -
  from assms(1,2) obtain xa xb where a: "a = JObj xa" and b: "b = JObj xb"
    by (auto simp: only_source_wasm_removed_def is_object_def split: json.splits)
  from assms(1,2) a b have keys: "map fst xa = map fst xb"
    and ka: "map fst xa = property_names full"
    by (simp_all add: only_source_wasm_removed_def property_names_def)
  from ka assms(3) have d: "distinct (map fst xa)" by simp
  have "map_of xa k = map_of xb k" for k
  proof (cases "k = ''source''")
    case False
    with assms(1,2) a b show ?thesis
      by (simp add: only_source_wasm_removed_def property_def)
  next
    case True
    from assms(1) a obtain src sa where s: "property full ''source'' = Some src"
      and sa: "map_of xa ''source'' = Some sa" "only_wasm_removed src sa"
      by (auto simp: only_source_wasm_removed_def property_def split: option.splits)
    from assms(2) b s obtain sb where sb: "map_of xb ''source'' = Some sb" "only_wasm_removed src sb"
      by (auto simp: only_source_wasm_removed_def property_def split: option.splits)
    from assms(4) s have "distinct (property_names src)" by blast
    from only_wasm_removed_unique[OF sa(2) sb(2) this] sa(1) sb(1) True show ?thesis by simp
  qed
  with alist_eqI[OF keys d] a b show ?thesis by simp
qed

lemma events_emit [simp]: "events (emit e w) = events w @ [e]"
  by (simp add: emit_def)

lemma files_emit [simp]: "files (emit e w) = files w"
  by (simp add: emit_def)

lemma dirs_emit [simp]: "dirs (emit e w) = dirs w"
  by (simp add: emit_def)

lemma events_writeJSONSync [simp]: "events (writeJSONSync f j w) = events w @ [WriteJSON f j]"
  by (simp add: writeJSONSync_def)

lemma files_writeJSONSync [simp]: "files (writeJSONSync f j w) = (files w)(f \<mapsto> j)"
  by (simp add: writeJSONSync_def)

lemma dirs_writeJSONSync [simp]: "dirs (writeJSONSync f j w) = dirs w"
  by (simp add: writeJSONSync_def)

lemma events_ensureDirSync [simp]: "events (ensureDirSync d w) = events w @ [EnsureDir d]"
  by (simp add: ensureDirSync_def)

lemma files_ensureDirSync [simp]: "files (ensureDirSync d w) = files w"
  by (simp add: ensureDirSync_def)

lemma dirs_ensureDirSync [simp]: "dirs (ensureDirSync d w) = insert d (dirs w)"
  by (simp add: ensureDirSync_def)

lemma contract_readable_upd:
  "contract_readable fs p \<Longrightarrow> has_source j \<Longrightarrow> contract_readable (fs(q \<mapsto> j)) p"
  by (simp add: contract_readable_def)

lemma written_append: "written (es @ es') fs = written es' (written es fs)"
  by (simp add: written_def)

lemma written_persisted:
  "written (persisted rs art t j) fs
     = fs(rs art (name t @ ''.contract'') \<mapsto> j, rs art (name t @ ''.json'') \<mapsto> delete_source_wasm j)"
  by (simp add: written_def persisted_def write_of_def)


lemma for_target_of_distinct:
  assumes "distinct (map name outs)"
    and "set names \<inter> name ` set outs = {}"
    and "\<forall>t \<in> set outs. contract_readable (files w) (contract t)"
  shows "\<exists>js w'. for_target_of rs art names paths outs w = (Inr (), w')
           \<and> length js = length outs
           \<and> (\<forall>i < length outs.
                 written (concat (map2 (persisted rs art) (take i outs) (take i js))) (files w)
                   (contract (outs ! i)) = Some (js ! i))
           \<and> (\<forall>j \<in> set js. has_source j)
           \<and> events w' = events w @ concat (map2 (persisted rs art) outs js)
           \<and> files w' = written (concat (map2 (persisted rs art) outs js)) (files w)
           \<and> dirs w' = dirs w"
  using assms
proof (induction outs arbitrary: names paths w)
  case Nil
  then show ?case by (simp add: written_def)
next
  case (Cons t outs)
  from Cons.prems(3) obtain j where j: "files w (contract t) = Some j" "has_source j"
    by (auto simp: contract_readable_def split: option.splits)
  let ?w1 = "emit (ReadJSON (contract t) j) w"
  let ?w2 = "writeJSONSync (rs art (name t @ ''.contract'')) j ?w1"
  let ?w3 = "writeJSONSync (rs art (name t @ ''.json'')) (delete_source_wasm j) ?w2"
  have fresh: "name t \<notin> set names" using Cons.prems(2) by auto
  have step: "for_target_of rs art names paths (t # outs) w
      = for_target_of rs art (names @ [name t]) (paths @ [contract t]) outs ?w3"
    using fresh j by (simp add: readJSONSync_def Let_def)
  have fs3: "files ?w3 = written (persisted rs art t j) (files w)"
    by (simp add: written_persisted)
  have r: "\<forall>u \<in> set outs. contract_readable (files ?w3) (contract u)"
    using Cons.prems(3) j(2) by (simp add: contract_readable_upd has_source_delete)
  have d: "distinct (map name outs)" using Cons.prems(1) by simp
  have n: "set (names @ [name t]) \<inter> name ` set outs = {}"
    using Cons.prems(1,2) by auto
  from Cons.IH[OF d n r, of "paths @ [contract t]"] obtain js w' where
    IH: "for_target_of rs art (names @ [name t]) (paths @ [contract t]) outs ?w3 = (Inr (), w')"
      "length js = length outs"
      "\<forall>i < length outs.
         written (concat (map2 (persisted rs art) (take i outs) (take i js))) (files ?w3)
           (contract (outs ! i)) = Some (js ! i)"
      "\<forall>j \<in> set js. has_source j"
      "events w' = events ?w3 @ concat (map2 (persisted rs art) outs js)"
      "files w' = written (concat (map2 (persisted rs art) outs js)) (files ?w3)"
      "dirs w' = dirs ?w3"
    by blast
  have rd: "written (concat (map2 (persisted rs art) (take i (t # outs)) (take i (j # js)))) (files w)
              (contract ((t # outs) ! i)) = Some ((j # js) ! i)"
    if "i < length (t # outs)" for i
  proof (cases i)
    case 0
    with j(1) show ?thesis by (simp add: written_def)
  next
    case (Suc k)
    with that have "k < length outs" by simp
    with IH(3) have "written (concat (map2 (persisted rs art) (take k outs) (take k js))) (files ?w3)
        (contract (outs ! k)) = Some (js ! k)" by blast
    then show ?thesis unfolding fs3 Suc by (simp add: written_append)
  qed
  have hs: "\<forall>j' \<in> set (j # js). has_source j'" using IH(4) j(2) by simp
  have ev: "events w' = events w @ concat (map2 (persisted rs art) (t # outs) (j # js))"
    using IH(5) by (simp add: persisted_def)
  have fs: "files w' = written (concat (map2 (persisted rs art) (t # outs) (j # js))) (files w)"
    using IH(6) unfolding fs3 by (simp add: written_append)
  have len: "length (j # js) = length (t # outs)" using IH(2) by simp
  have dr: "dirs w' = dirs w" using IH(7) by simp
  have res: "for_target_of rs art names paths (t # outs) w = (Inr (), w')"
    using step IH(1) by simp
  show ?case
    apply (rule exI[of _ "j # js"], rule exI[of _ w'])
    apply (intro conjI allI impI)
          apply (rule res)
         apply (rule len)
        apply (erule rd)
       apply (rule hs)
      apply (rule ev)
     apply (rule fs)
    apply (rule dr)
    done
qed

lemma indexOf_nonneg_iff: "0 \<le> indexOf xs x \<longleftrightarrow> x \<in> set xs"
  by (induction xs) (auto simp: Let_def)

lemma array_get_Cons_Suc: "0 \<le> i \<Longrightarrow> array_get (y # ys) (i + 1) = array_get ys i"
  by (auto simp: array_get_def nat_add_distrib)

lemma array_get_first:
  assumes "distinct (map name xs)" and "u \<in> set xs"
  shows "array_get (map contract xs) (indexOf (map name xs) (name u)) = Some (contract u)"
  using assms
proof (induction xs)
  case Nil
  then show ?case by simp
next
  case (Cons x xs)
  show ?case
  proof (cases "name x = name u")
    case True
    with Cons.prems have "u = x" by (auto simp: image_iff)
    with True show ?thesis by (simp add: array_get_def)
  next
    case False
    with Cons.prems have u: "u \<in> set xs" and d: "distinct (map name xs)" by auto
    from u have "0 \<le> indexOf (map name xs) (name u)"
      by (simp add: indexOf_nonneg_iff)
    with False Cons.IH[OF d u] show ?thesis
      by (simp add: Let_def array_get_Cons_Suc)
  qed
qed


lemma for_target_of_collision:
  assumes "distinct (map name (seen @ pre))"
    and "name t \<in> name ` set (seen @ pre)"
    and "\<forall>u \<in> set pre. contract_readable (files w) (contract u)"
  shows "\<exists>js w'. for_target_of rs art (map name seen) (map contract seen) (pre @ t # post) w
             = (Inl (INK_DUPLICATE_NAME
                       (array_get (map contract (seen @ pre)) (indexOf (map name (seen @ pre)) (name t)))
                       (contract t)), w')
           \<and> length js = length pre
           \<and> events w' = events w @ concat (map2 (persisted rs art) pre js)
           \<and> files w' = written (concat (map2 (persisted rs art) pre js)) (files w)
           \<and> dirs w' = dirs w"
  using assms
proof (induction pre arbitrary: seen w)
  case Nil
  then show ?case by (auto simp: image_iff written_def)
next
  case (Cons p pre)
  from Cons.prems(3) obtain j where j: "files w (contract p) = Some j" "has_source j"
    by (auto simp: contract_readable_def split: option.splits)
  let ?w1 = "emit (ReadJSON (contract p) j) w"
  let ?w2 = "writeJSONSync (rs art (name p @ ''.contract'')) j ?w1"
  let ?w3 = "writeJSONSync (rs art (name p @ ''.json'')) (delete_source_wasm j) ?w2"
  have fresh: "name p \<notin> set (map name seen)" using Cons.prems(1) by auto
  have step: "for_target_of rs art (map name seen) (map contract seen) ((p # pre) @ t # post) w
      = for_target_of rs art (map name (seen @ [p])) (map contract (seen @ [p])) (pre @ t # post) ?w3"
    using fresh j by (simp add: readJSONSync_def Let_def)
  have fs3: "files ?w3 = written (persisted rs art p j) (files w)"
    by (simp add: written_persisted)
  have r: "\<forall>u \<in> set pre. contract_readable (files ?w3) (contract u)"
    using Cons.prems(3) j(2) by (simp add: contract_readable_upd has_source_delete)
  have d: "distinct (map name ((seen @ [p]) @ pre))" using Cons.prems(1) by simp
  have n: "name t \<in> name ` set ((seen @ [p]) @ pre)" using Cons.prems(2) by auto
  from Cons.IH[OF d n r] obtain js w' where
    IH: "for_target_of rs art (map name (seen @ [p])) (map contract (seen @ [p])) (pre @ t # post) ?w3
           = (Inl (INK_DUPLICATE_NAME
                     (array_get (map contract ((seen @ [p]) @ pre))
                        (indexOf (map name ((seen @ [p]) @ pre)) (name t)))
                     (contract t)), w')"
      "length js = length pre"
      "events w' = events ?w3 @ concat (map2 (persisted rs art) pre js)"
      "files w' = written (concat (map2 (persisted rs art) pre js)) (files ?w3)"
      "dirs w' = dirs ?w3"
    by blast
  have ev: "events w' = events w @ concat (map2 (persisted rs art) (p # pre) (j # js))"
    using IH(3) by (simp add: persisted_def)
  have fs: "files w' = written (concat (map2 (persisted rs art) (p # pre) (j # js))) (files w)"
    using IH(4) unfolding fs3 by (simp add: written_append)
  show ?case
    apply (rule exI[of _ "j # js"], rule exI[of _ w'])
    using IH(1,2,5) step ev fs by simp
qed

lemma first_collision:
  "\<not> distinct (map f xs) \<Longrightarrow>
     \<exists>pre u t post. xs = pre @ t # post \<and> distinct (map f pre) \<and> u \<in> set pre \<and> f u = f t"
proof (induction xs rule: rev_induct)
  case Nil
  then show ?case by simp
next
  case (snoc x xs)
  show ?case
  proof (cases "distinct (map f xs)")
    case True
    with snoc.prems obtain u where "u \<in> set xs" "f u = f x" by (auto simp: image_iff)
    with True show ?thesis by (intro exI[of _ xs] exI[of _ u] exI[of _ x] exI[of _ "[]"]) simp
  next
    case False
    from snoc.IH[OF this] obtain pre u t post where
      "xs = pre @ t # post" "distinct (map f pre)" "u \<in> set pre" "f u = f t" by blast
    then show ?thesis
      by (intro exI[of _ pre] exI[of _ u] exI[of _ t] exI[of _ "post @ [x]"]) simp
  qed
qed


text \<open>
  C10. With an empty \<open>sources\<close> list in the gathered input, the invoke-compiler stage
  returns \<^verbatim>\<open>undefined\<close> and the output stage returns \<^verbatim>\<open>undefined\<close>, each leaving the world
  exactly as it was: no call of the compiler, no directory made, no file written and
  nothing printed, whatever the other arguments and collaborators are.
\<close>

theorem empty_sources_skip_compiler_and_output:
  assumes "arg taskArgs ''input'' = VInput input" and "sources input = []"
  shows "compile_ink_exec c taskArgs env runSuper w = (Inr Undefined, w)
       \<and> compile_ink_output c taskArgs env runSuper w = (Inr Undefined, w)"
  using assms by (simp add: compile_ink_exec_def compile_ink_output_def)


text \<open>
  C8. The pre-check stage asks \<^verbatim>\<open>checkEnv\<close> about version \<^verbatim>\<open>0.8.0\<close>. It fails with
  \<open>INK_ENV_ERROR\<close>, reporting \<^verbatim>\<open>v0.8.0\<close>, exactly when the check answers that the
  environment is not valid, and it fails with no other \<open>INK_ENV_ERROR\<close>. When the check
  answers that the environment is valid, the stage returns without error.
\<close>

theorem pre_check_fails_iff_env_invalid:
  "(fst (compile_ink_pre c taskArgs env runSuper w) = Inl (INK_ENV_ERROR ''v0.8.0''))
      = (checkEnv c ''0.8.0'' = Inr False)
   \<and> (\<exists>version. fst (compile_ink_pre c taskArgs env runSuper w) = Inl (INK_ENV_ERROR version))
      = (checkEnv c ''0.8.0'' = Inr False)
   \<and> (checkEnv c ''0.8.0'' = Inr True \<longrightarrow>
        compile_ink_pre c taskArgs env runSuper w = (Inr Undefined, emit (CheckEnv ''0.8.0'') w))"
  by (cases "checkEnv c ''0.8.0''") (auto simp: compile_ink_pre_def Let_def)

theorem pre_check_fails_iff_env_invalid_witness:
  "checkEnv example_collaborators ''0.8.0'' = Inr True
   \<and> fst (compile_ink_pre example_collaborators Map.empty example_env no_super example_world) = Inr Undefined
   \<and> events (snd (compile_ink_pre example_collaborators Map.empty example_env no_super example_world))
       = [CheckEnv ''0.8.0'']"
  using pre_check_fails_iff_env_invalid
    [of example_collaborators Map.empty example_env no_super example_world]
  by (simp add: example_collaborators_def example_world_def)


lemma compile_stops_at_rejecting_stage:
  "(r TASK_COMPILE_INK_PRE None w = (Inl e, w1) \<longrightarrow>
      compile_ink taskArgs (env\<lparr>run := recording r\<rparr>) runSuper (w, [])
        = (Inl e, (w1, [(TASK_COMPILE_INK_PRE, None)])))
   \<and> (r TASK_COMPILE_INK_PRE None w = (Inr ready, w1)
        \<and> r TASK_COMPILE_INK_INPUT (Some [''sourcePattern'' \<mapsto> arg taskArgs ''sourcePattern'']) w1
            = (Inl e, w2) \<longrightarrow>
      compile_ink taskArgs (env\<lparr>run := recording r\<rparr>) runSuper (w, [])
        = (Inl e, (w2, [(TASK_COMPILE_INK_PRE, None),
                        (TASK_COMPILE_INK_INPUT,
                         Some [''sourcePattern'' \<mapsto> arg taskArgs ''sourcePattern''])])))
   \<and> (r TASK_COMPILE_INK_PRE None w = (Inr ready, w1)
        \<and> r TASK_COMPILE_INK_INPUT (Some [''sourcePattern'' \<mapsto> arg taskArgs ''sourcePattern'']) w1
            = (Inr input, w2)
        \<and> r TASK_COMPILE_INK_EXEC (Some [''input'' \<mapsto> input]) w2 = (Inl e, w3) \<longrightarrow>
      compile_ink taskArgs (env\<lparr>run := recording r\<rparr>) runSuper (w, [])
        = (Inl e, (w3, [(TASK_COMPILE_INK_PRE, None),
                        (TASK_COMPILE_INK_INPUT,
                         Some [''sourcePattern'' \<mapsto> arg taskArgs ''sourcePattern'']),
                        (TASK_COMPILE_INK_EXEC, Some [''input'' \<mapsto> input])])))"
  by (simp add: compile_ink_def recording_def)

text \<open>
  C2. Let the runner \<open>r\<close> resolve the first three stages. Then the compile action, given
  \<open>r\<close> as its \<^verbatim>\<open>run\<close>, makes exactly four calls through it, in this order: the pre-check
  with no arguments; gather-input with the source pattern; invoke-compiler with the
  result of gather-input as \<^verbatim>\<open>input\<close>; materialize-output with that same \<^verbatim>\<open>input\<close> and
  the result of invoke-compiler as \<^verbatim>\<open>output\<close>. Each stage starts in the world the stage
  before it left, and the action ends as the last stage ends.
\<close>

theorem compile_runs_four_stages_in_order:
  assumes "r TASK_COMPILE_INK_PRE None w = (Inr ready, w1)"
    and "r TASK_COMPILE_INK_INPUT (Some [''sourcePattern'' \<mapsto> arg taskArgs ''sourcePattern'']) w1
           = (Inr input, w2)"
    and "r TASK_COMPILE_INK_EXEC (Some [''input'' \<mapsto> input]) w2 = (Inr outs, w3)"
    and "r TASK_COMPILE_INK_OUTPUT (Some [''input'' \<mapsto> input, ''output'' \<mapsto> outs]) w3 = (res, w4)"
  shows "compile_ink taskArgs (env\<lparr>run := recording r\<rparr>) runSuper (w, [])
       = ((case res of Inl e \<Rightarrow> Inl e | Inr done \<Rightarrow> Inr Undefined),
          (w4, [(TASK_COMPILE_INK_PRE, None),
                (TASK_COMPILE_INK_INPUT, Some [''sourcePattern'' \<mapsto> arg taskArgs ''sourcePattern'']),
                (TASK_COMPILE_INK_EXEC, Some [''input'' \<mapsto> input]),
                (TASK_COMPILE_INK_OUTPUT, Some [''input'' \<mapsto> input, ''output'' \<mapsto> outs])]))"
  using assms by (simp add: compile_ink_def recording_def split: sum.splits)



lemma compile_ink_output_unfold:
  assumes "arg taskArgs ''input'' = VInput input" and "sources input \<noteq> []"
    and "arg taskArgs ''output'' = VOutput outs"
  shows "compile_ink_output c taskArgs env runSuper w =
     (case for_target_of (path_resolve c) (paths_artifacts (config env)) [] [] outs
             (ensureDirSync (paths_artifacts (config env)) w) of
        (Inl e, w2) \<Rightarrow> (Inl e, w2)
      | (Inr _, w2) \<Rightarrow>
          (Inr Undefined,
           console_log (success_message (paths_artifacts (config env))) (console_log [] w2)))"
  using assms by (simp add: compile_ink_output_def targets_of_def Let_def)

text \<open>
  C3. When the compiler's output holds two records with the same name (the gathered
  input has sources, and the contract files of the output are readable bundles), the
  output stage fails with \<open>INK_DUPLICATE_NAME\<close>. The error carries the contract path of
  \<open>first\<close>, the one earlier record with that name, and the contract path of \<open>t\<close>, the
  colliding record: the first record of the output whose name was seen before.
\<close>

theorem duplicate_name_fails_with_both_paths:
  assumes "arg taskArgs ''input'' = VInput input" and "sources input \<noteq> []"
    and "arg taskArgs ''output'' = VOutput outs"
    and "\<not> distinct (map name outs)"
    and "\<forall>t \<in> set outs. contract_readable (files w) (contract t)"
  shows "\<exists>pre first t post.
           outs = pre @ t # post \<and> distinct (map name pre) \<and> first \<in> set pre \<and> name first = name t
         \<and> fst (compile_ink_output c taskArgs env runSuper w)
             = Inl (INK_DUPLICATE_NAME (Some (contract first)) (contract t))"
proof -
  from first_collision[OF assms(4)] obtain pre first t post where
    dec: "outs = pre @ t # post" "distinct (map name pre)" "first \<in> set pre" "name first = name t"
    by blast
  let ?art = "paths_artifacts (config env)"
  have r: "\<forall>u \<in> set pre. contract_readable (files (ensureDirSync ?art w)) (contract u)"
    using assms(5) dec(1) by simp
  have d: "distinct (map name ([] @ pre))" using dec(2) by simp
  have n: "name t \<in> name ` set ([] @ pre)" using dec(3,4) by (metis append_Nil imageI)
  from for_target_of_collision[OF d n r, of "path_resolve c" ?art post] obtain js w' where
    run: "for_target_of (path_resolve c) ?art [] [] (pre @ t # post) (ensureDirSync ?art w)
            = (Inl (INK_DUPLICATE_NAME (array_get (map contract pre) (indexOf (map name pre) (name t)))
                      (contract t)), w')"
    by auto
  have "array_get (map contract pre) (indexOf (map name pre) (name t)) = Some (contract first)"
    using array_get_first[OF dec(2,3)] dec(4) by simp
  with run have "fst (compile_ink_output c taskArgs env runSuper w)
      = Inl (INK_DUPLICATE_NAME (Some (contract first)) (contract t))"
    using assms(1,2,3) dec(1) by (simp add: compile_ink_output_unfold)
  with dec show ?thesis by blast
qed

text \<open>
  C4, as the code has it. When the compiler's output \<open>pre @ t # post\<close> has its first
  collision at \<open>t\<close> (the names of \<open>pre\<close> differ from each other and one of them is the
  name of \<open>t\<close>), the output stage fails with \<open>INK_DUPLICATE_NAME\<close> after it has made the
  artifact directory and written the two files of every record of \<open>pre\<close>; nothing is
  read or written for \<open>t\<close> or for a record of \<open>post\<close>, nothing is printed, and nothing
  written is taken back.
\<close>

theorem duplicate_name_fails_after_writing_earlier_records:
  assumes "arg taskArgs ''input'' = VInput input" and "sources input \<noteq> []"
    and "arg taskArgs ''output'' = VOutput (pre @ t # post)"
    and "distinct (map name pre)" and "name t \<in> name ` set pre"
    and "\<forall>u \<in> set pre. contract_readable (files w) (contract u)"
  shows "\<exists>js w' path1.
           compile_ink_output c taskArgs env runSuper w
             = (Inl (INK_DUPLICATE_NAME path1 (contract t)), w')
         \<and> length js = length pre
         \<and> events w' = events w @ [EnsureDir (paths_artifacts (config env))]
             @ concat (map2 (persisted (path_resolve c) (paths_artifacts (config env))) pre js)
         \<and> files w' = written
               (concat (map2 (persisted (path_resolve c) (paths_artifacts (config env))) pre js))
               (files w)"
proof -
  let ?art = "paths_artifacts (config env)"
  have r: "\<forall>u \<in> set pre. contract_readable (files (ensureDirSync ?art w)) (contract u)"
    using assms(6) by simp
  have d: "distinct (map name ([] @ pre))" using assms(4) by simp
  have n: "name t \<in> name ` set ([] @ pre)" using assms(5) by simp
  from for_target_of_collision[OF d n r, of "path_resolve c" ?art post] obtain js w' where
    run: "for_target_of (path_resolve c) ?art [] [] (pre @ t # post) (ensureDirSync ?art w)
            = (Inl (INK_DUPLICATE_NAME (array_get (map contract pre) (indexOf (map name pre) (name t)))
                      (contract t)), w')"
      "length js = length pre"
      "events w' = events (ensureDirSync ?art w) @ concat (map2 (persisted (path_resolve c) ?art) pre js)"
      "files w' = written (concat (map2 (persisted (path_resolve c) ?art) pre js))
                    (files (ensureDirSync ?art w))"
    by auto
  have "compile_ink_output c taskArgs env runSuper w
      = (Inl (INK_DUPLICATE_NAME (array_get (map contract pre) (indexOf (map name pre) (name t)))
                (contract t)), w')"
    using run(1) assms(1,2,3) by (simp add: compile_ink_output_unfold)
  with run(2,3,4) show ?thesis by (intro exI[of _ js] exI[of _ w'] exI) simp
qed

text \<open>
  C5. For a compiler output without a repeated name (the gathered input has sources, and
  the contract files of the output are readable bundles), the output stage succeeds, and
  what it does between making the artifact directory and printing the two lines is, for
  each unit in turn: read the unit's contract file, write the record as read to
  \<^verbatim>\<open><name>.contract\<close>, and write a second record to \<^verbatim>\<open><name>.json\<close>, both in the artifact
  directory. The record read for a unit is what its contract file holds after the writes
  for the units before it. The second record is the first with \<^verbatim>\<open>source.wasm\<close> removed
  and nothing else changed: the same property names in the same order, the same value
  under every name but \<^verbatim>\<open>source\<close>, and under \<^verbatim>\<open>source\<close> the same object without its
  \<^verbatim>\<open>wasm\<close> property. The files are in the end the files at the start with exactly these
  writes made.
\<close>

theorem output_persists_two_records_per_unit:
  assumes "arg taskArgs ''input'' = VInput input" and "sources input \<noteq> []"
    and "arg taskArgs ''output'' = VOutput outs"
    and "distinct (map name outs)"
    and "\<forall>t \<in> set outs. contract_readable (files w) (contract t)"
  shows "\<exists>js w'.
           compile_ink_output c taskArgs env runSuper w = (Inr Undefined, w')
         \<and> length js = length outs
         \<and> (\<forall>i < length outs.
               written (concat (map2 (persisted (path_resolve c) (paths_artifacts (config env)))
                                  (take i outs) (take i js))) (files w)
                 (contract (outs ! i)) = Some (js ! i))
         \<and> (\<forall>j \<in> set js. only_source_wasm_removed j (delete_source_wasm j))
         \<and> events w' = events w @ [EnsureDir (paths_artifacts (config env))]
             @ concat (map2 (persisted (path_resolve c) (paths_artifacts (config env))) outs js)
             @ [ConsoleLog [], ConsoleLog (success_message (paths_artifacts (config env)))]
         \<and> files w' = written
               (concat (map2 (persisted (path_resolve c) (paths_artifacts (config env))) outs js))
               (files w)"
proof -
  let ?art = "paths_artifacts (config env)"
  let ?w1 = "ensureDirSync ?art w"
  have r: "\<forall>u \<in> set outs. contract_readable (files ?w1) (contract u)"
    using assms(5) by simp
  have n: "set [] \<inter> name ` set outs = {}" by simp
  from for_target_of_distinct[OF assms(4) n r, of "path_resolve c" ?art "[]"] obtain js w' where
    run: "for_target_of (path_resolve c) ?art [] [] outs ?w1 = (Inr (), w')"
      "length js = length outs"
      "\<forall>i < length outs.
         written (concat (map2 (persisted (path_resolve c) ?art) (take i outs) (take i js)))
           (files ?w1) (contract (outs ! i)) = Some (js ! i)"
      "\<forall>j \<in> set js. has_source j"
      "events w' = events ?w1 @ concat (map2 (persisted (path_resolve c) ?art) outs js)"
      "files w' = written (concat (map2 (persisted (path_resolve c) ?art) outs js)) (files ?w1)"
    by blast
  let ?w'' = "console_log (success_message ?art) (console_log [] w')"
  have res: "compile_ink_output c taskArgs env runSuper w = (Inr Undefined, ?w'')"
    using run(1) assms(1,2,3) by (simp add: compile_ink_output_unfold)
  have rd: "\<forall>i < length outs.
      written (concat (map2 (persisted (path_resolve c) ?art) (take i outs) (take i js))) (files w)
        (contract (outs ! i)) = Some (js ! i)"
    using run(3) by simp
  have strip: "\<forall>j \<in> set js. only_source_wasm_removed j (delete_source_wasm j)"
    using run(4) by (simp add: delete_source_wasm_only)
  have ev: "events ?w'' = events w @ [EnsureDir ?art]
      @ concat (map2 (persisted (path_resolve c) ?art) outs js)
      @ [ConsoleLog [], ConsoleLog (success_message ?art)]"
    using run(5) by (simp add: console_log_def)
  have fs: "files ?w'' = written (concat (map2 (persisted (path_resolve c) ?art) outs js)) (files w)"
    using run(6) by (simp add: console_log_def)
  show ?thesis
    apply (rule exI[of _ js], rule exI[of _ ?w''])
    apply (intro conjI)
         apply (rule res)
        apply (rule run(2))
       apply (rule rd)
      apply (rule strip)
     apply (rule ev)
    apply (rule fs)
    done
qed

lemmas example_defs =
  example_collaborators_def example_env_def example_world_def example_input_def
  example_output_def colliding_output_def example_bundle_def no_super_def

lemmas stage_defs =
  compile_ink_pre_def compile_ink_input_def compile_ink_exec_def compile_ink_output_def
  targets_of_def
  TASK_COMPILE_INK_PRE_def TASK_COMPILE_INK_INPUT_def TASK_COMPILE_INK_EXEC_def
  TASK_COMPILE_INK_OUTPUT_def

lemmas effect_defs =
  emit_def ensureDirSync_def readJSONSync_def writeJSONSync_def console_log_def
  has_source_def delete_source_wasm_def contract_readable_def success_message_def

theorem empty_sources_skip_compiler_and_output_witness:
  "arg [''input'' \<mapsto> VInput \<lparr>sources = []\<rparr>, ''output'' \<mapsto> Undefined] ''input''
      = VInput \<lparr>sources = []\<rparr>
   \<and> sources \<lparr>sources = []\<rparr> = []
   \<and> compile_ink_exec example_collaborators
        [''input'' \<mapsto> VInput \<lparr>sources = []\<rparr>, ''output'' \<mapsto> Undefined]
        example_env no_super example_world = (Inr Undefined, example_world)
   \<and> compile_ink_output example_collaborators
        [''input'' \<mapsto> VInput \<lparr>sources = []\<rparr>, ''output'' \<mapsto> Undefined]
        example_env no_super example_world = (Inr Undefined, example_world)"
  using empty_sources_skip_compiler_and_output
    [of "[''input'' \<mapsto> VInput \<lparr>sources = []\<rparr>, ''output'' \<mapsto> Undefined]" "\<lparr>sources = []\<rparr>"
        example_collaborators example_env no_super example_world]
  by (simp add: arg_def)

theorem duplicate_name_fails_with_both_paths_witness:
  "arg [''input'' \<mapsto> VInput example_input, ''output'' \<mapsto> VOutput colliding_output] ''input''
      = VInput example_input
   \<and> sources example_input \<noteq> []
   \<and> \<not> distinct (map name colliding_output)
   \<and> contract_readable (files example_world) ''target/erc20.contract''
   \<and> contract_readable (files example_world) ''target/release/erc20.contract''
   \<and> (\<exists>pre first t post.
         colliding_output = pre @ t # post \<and> distinct (map name pre) \<and> first \<in> set pre
       \<and> name first = name t
       \<and> fst (compile_ink_output example_collaborators
                 [''input'' \<mapsto> VInput example_input, ''output'' \<mapsto> VOutput colliding_output]
                 example_env no_super example_world)
           = Inl (INK_DUPLICATE_NAME (Some (contract first)) (contract t)))"
proof -
  let ?args = "[''input'' \<mapsto> VInput example_input, ''output'' \<mapsto> VOutput colliding_output]"
  have h1: "arg ?args ''input'' = VInput example_input" by (simp add: arg_def)
  have h2: "sources example_input \<noteq> []" by (simp add: example_input_def)
  have h3: "arg ?args ''output'' = VOutput colliding_output" by (simp add: arg_def)
  have h4: "\<not> distinct (map name colliding_output)" by (simp add: colliding_output_def)
  have r1: "contract_readable (files example_world) ''target/erc20.contract''"
    by (simp add: example_defs effect_defs)
  have r2: "contract_readable (files example_world) ''target/release/erc20.contract''"
    by (simp add: example_defs effect_defs)
  have h5: "\<forall>t \<in> set colliding_output. contract_readable (files example_world) (contract t)"
    using r1 r2 by (simp add: colliding_output_def)
  show ?thesis
    using duplicate_name_fails_with_both_paths
      [OF h1 h2 h3 h4 h5, of example_collaborators example_env no_super]
      h1 h2 h4 r1 r2
    by blast
qed

text \<open>
  C4 as the spec states it fails. On the colliding output of the example project the
  output stage ends with \<open>INK_DUPLICATE_NAME\<close>, and by then both artifact files of the
  first record are in the artifact directory, which held neither before.
\<close>

theorem duplicate_name_leaves_files_counterexample:
  "fst (compile_ink_output example_collaborators
          [''input'' \<mapsto> VInput example_input, ''output'' \<mapsto> VOutput colliding_output]
          example_env no_super example_world)
     = Inl (INK_DUPLICATE_NAME (Some ''target/erc20.contract'') ''target/release/erc20.contract'')
   \<and> files example_world ''artifacts/erc20.contract'' = None
   \<and> files example_world ''artifacts/erc20.json'' = None
   \<and> files (snd (compile_ink_output example_collaborators
          [''input'' \<mapsto> VInput example_input, ''output'' \<mapsto> VOutput colliding_output]
          example_env no_super example_world)) ''artifacts/erc20.contract'' = Some example_bundle
   \<and> files (snd (compile_ink_output example_collaborators
          [''input'' \<mapsto> VInput example_input, ''output'' \<mapsto> VOutput colliding_output]
          example_env no_super example_world)) ''artifacts/erc20.json''
       = Some (JObj [(''source'', JObj [(''hash'', JStr ''0x2a'')]),
                     (''contract'', JObj [(''name'', JStr ''erc20'')])])"
  by (simp add: compile_ink_output_def targets_of_def arg_def example_defs effect_defs
      array_get_def Let_def)

theorem duplicate_name_fails_after_writing_earlier_records_witness:
  "arg [''input'' \<mapsto> VInput example_input, ''output'' \<mapsto> VOutput colliding_output] ''input''
      = VInput example_input
   \<and> sources example_input \<noteq> []
   \<and> colliding_output = example_output @ \<lparr>name = ''erc20'', contract = ''target/release/erc20.contract''\<rparr> # []
   \<and> distinct (map name example_output)
   \<and> contract_readable (files example_world) ''target/erc20.contract''
   \<and> (\<exists>js w' path1.
         compile_ink_output example_collaborators
           [''input'' \<mapsto> VInput example_input, ''output'' \<mapsto> VOutput colliding_output]
           example_env no_super example_world
           = (Inl (INK_DUPLICATE_NAME path1 ''target/release/erc20.contract''), w')
       \<and> length js = 1
       \<and> events w' = EnsureDir ''artifacts''
           # concat (map2 (persisted (\<lambda>dir file. dir @ ''/'' @ file) ''artifacts'') example_output js)
       \<and> files w' = written
             (concat (map2 (persisted (\<lambda>dir file. dir @ ''/'' @ file) ''artifacts'') example_output js))
             (files example_world))"
proof -
  let ?t = "\<lparr>name = ''erc20'', contract = ''target/release/erc20.contract''\<rparr>"
  let ?args = "[''input'' \<mapsto> VInput example_input, ''output'' \<mapsto> VOutput colliding_output]"
  have h1: "arg ?args ''input'' = VInput example_input" by (simp add: arg_def)
  have h2: "sources example_input \<noteq> []" by (simp add: example_input_def)
  have split: "colliding_output = example_output @ ?t # []"
    by (simp add: colliding_output_def example_output_def)
  have h3: "arg ?args ''output'' = VOutput (example_output @ ?t # [])"
    by (simp add: arg_def split)
  have h4: "distinct (map name example_output)" by (simp add: example_output_def)
  have h5: "name ?t \<in> name ` set example_output" by (simp add: example_output_def)
  have r1: "contract_readable (files example_world) ''target/erc20.contract''"
    by (simp add: example_defs effect_defs)
  have h6: "\<forall>u \<in> set example_output. contract_readable (files example_world) (contract u)"
    using r1 by (simp add: example_output_def)
  have c: "path_resolve example_collaborators = (\<lambda>dir file. dir @ ''/'' @ file)"
    "paths_artifacts (config (example_env :: world RedspotRuntimeEnvironment)) = ''artifacts''"
    "events example_world = []"
    by (simp_all add: example_defs)
  show ?thesis
    using duplicate_name_fails_after_writing_earlier_records
      [OF h1 h2 h3 h4 h5 h6, of example_collaborators example_env no_super]
      h1 h2 split h4 r1
    by (simp add: c example_output_def)
qed

theorem output_persists_two_records_per_unit_witness:
  "arg [''input'' \<mapsto> VInput example_input, ''output'' \<mapsto> VOutput example_output] ''input''
      = VInput example_input
   \<and> sources example_input \<noteq> []
   \<and> distinct (map name example_output)
   \<and> contract_readable (files example_world) ''target/erc20.contract''
   \<and> fst (compile_ink_output example_collaborators
             [''input'' \<mapsto> VInput example_input, ''output'' \<mapsto> VOutput example_output]
             example_env no_super example_world) = Inr Undefined
   \<and> events (snd (compile_ink_output example_collaborators
             [''input'' \<mapsto> VInput example_input, ''output'' \<mapsto> VOutput example_output]
             example_env no_super example_world))
       = [EnsureDir ''artifacts'',
          ReadJSON ''target/erc20.contract''
            (JObj [(''source'', JObj [(''hash'', JStr ''0x2a''), (''wasm'', JStr ''0x0061736d'')]),
                   (''contract'', JObj [(''name'', JStr ''erc20'')])]),
          WriteJSON ''artifacts/erc20.contract''
            (JObj [(''source'', JObj [(''hash'', JStr ''0x2a''), (''wasm'', JStr ''0x0061736d'')]),
                   (''contract'', JObj [(''name'', JStr ''erc20'')])]),
          WriteJSON ''artifacts/erc20.json''
            (JObj [(''source'', JObj [(''hash'', JStr ''0x2a'')]),
                   (''contract'', JObj [(''name'', JStr ''erc20'')])]),
          ConsoleLog [], ConsoleLog (success_message ''artifacts'')]
   \<and> only_source_wasm_removed
         (JObj [(''source'', JObj [(''hash'', JStr ''0x2a''), (''wasm'', JStr ''0x0061736d'')]),
                (''contract'', JObj [(''name'', JStr ''erc20'')])])
         (JObj [(''source'', JObj [(''hash'', JStr ''0x2a'')]),
                (''contract'', JObj [(''name'', JStr ''erc20'')])])"
proof -
  let ?args = "[''input'' \<mapsto> VInput example_input, ''output'' \<mapsto> VOutput example_output]"
  let ?resolve = "\<lambda>dir file. dir @ ''/'' @ file"
  have h1: "arg ?args ''input'' = VInput example_input" by (simp add: arg_def)
  have h2: "sources example_input \<noteq> []" by (simp add: example_input_def)
  have h3: "arg ?args ''output'' = VOutput example_output" by (simp add: arg_def)
  have h4: "distinct (map name example_output)" by (simp add: example_output_def)
  have r1: "contract_readable (files example_world) ''target/erc20.contract''"
    by (simp add: example_defs effect_defs)
  have h5: "\<forall>u \<in> set example_output. contract_readable (files example_world) (contract u)"
    using r1 by (simp add: example_output_def)
  have c: "path_resolve example_collaborators = ?resolve"
    "paths_artifacts (config (example_env :: world RedspotRuntimeEnvironment)) = ''artifacts''"
    "events example_world = []"
    by (simp_all add: example_defs)
  from output_persists_two_records_per_unit
         [OF h1 h2 h3 h4 h5, of example_collaborators example_env no_super]
  obtain js w' where
    res: "compile_ink_output example_collaborators ?args example_env no_super example_world
            = (Inr Undefined, w')"
    and len: "length js = length example_output"
    and rd: "\<forall>i < length example_output.
          written (concat (map2 (persisted ?resolve ''artifacts'')
                             (take i example_output) (take i js))) (files example_world)
            (contract (example_output ! i)) = Some (js ! i)"
    and strip: "\<forall>j \<in> set js. only_source_wasm_removed j (delete_source_wasm j)"
    and ev: "events w' = [EnsureDir ''artifacts'']
          @ concat (map2 (persisted ?resolve ''artifacts'') example_output js)
          @ [ConsoleLog [], ConsoleLog (success_message ''artifacts'')]"
    unfolding c by auto
  from len obtain j where js: "js = [j]"
    by (cases js) (simp_all add: example_output_def)
  from rd have "written [] (files example_world) ''target/erc20.contract'' = Some j"
    unfolding js by (simp add: example_output_def)
  then have j: "j = JObj [(''source'', JObj [(''hash'', JStr ''0x2a''), (''wasm'', JStr ''0x0061736d'')]),
                          (''contract'', JObj [(''name'', JStr ''erc20'')])]"
    by (simp add: written_def example_world_def example_bundle_def)
  have del: "delete_source_wasm j = JObj [(''source'', JObj [(''hash'', JStr ''0x2a'')]),
                                          (''contract'', JObj [(''name'', JStr ''erc20'')])]"
    unfolding j by (simp add: delete_source_wasm_def)
  from strip have s: "only_source_wasm_removed j (delete_source_wasm j)"
    unfolding js by simp
  have e: "events w' = [EnsureDir ''artifacts'', ReadJSON ''target/erc20.contract'' j,
             WriteJSON ''artifacts/erc20.contract'' j,
             WriteJSON ''artifacts/erc20.json'' (delete_source_wasm j),
             ConsoleLog [], ConsoleLog (success_message ''artifacts'')]"
    using ev unfolding js by (simp add: example_output_def persisted_def)
  show ?thesis
    using h1 h2 h4 r1 res e s unfolding del unfolding j by simp
qed

theorem compile_runs_four_stages_in_order_witness:
  "fst (compile_ink Map.empty (example_env\<lparr>run := recording example_stages\<rparr>) no_super
          (example_world, [])) = Inr Undefined
   \<and> map fst (snd (snd (compile_ink Map.empty (example_env\<lparr>run := recording example_stages\<rparr>)
          no_super (example_world, []))))
       = [TASK_COMPILE_INK_PRE, TASK_COMPILE_INK_INPUT, TASK_COMPILE_INK_EXEC, TASK_COMPILE_INK_OUTPUT]
   \<and> map snd (snd (snd (compile_ink Map.empty (example_env\<lparr>run := recording example_stages\<rparr>)
          no_super (example_world, []))))
       = [None,
          Some [''sourcePattern'' \<mapsto> Undefined],
          Some [''input'' \<mapsto> VInput example_input],
          Some [''input'' \<mapsto> VInput example_input, ''output'' \<mapsto> VOutput example_output]]"
proof -
  define w1 where "w1 = snd (example_stages TASK_COMPILE_INK_PRE None example_world)"
  define w2 where "w2 = snd (example_stages TASK_COMPILE_INK_INPUT
                               (Some [''sourcePattern'' \<mapsto> arg Map.empty ''sourcePattern'']) w1)"
  define w3 where "w3 = snd (example_stages TASK_COMPILE_INK_EXEC
                               (Some [''input'' \<mapsto> VInput example_input]) w2)"
  define res where "res = example_stages TASK_COMPILE_INK_OUTPUT
      (Some [''input'' \<mapsto> VInput example_input, ''output'' \<mapsto> VOutput example_output]) w3"
  have h1: "example_stages TASK_COMPILE_INK_PRE None example_world = (Inr Undefined, w1)"
    unfolding w1_def by (simp add: example_stages_def stage_defs example_defs)
  have h2: "example_stages TASK_COMPILE_INK_INPUT
              (Some [''sourcePattern'' \<mapsto> arg Map.empty ''sourcePattern'']) w1
              = (Inr (VInput example_input), w2)"
    unfolding w2_def by (simp add: example_stages_def stage_defs example_defs)
  have h3: "example_stages TASK_COMPILE_INK_EXEC (Some [''input'' \<mapsto> VInput example_input]) w2
              = (Inr (VOutput example_output), w3)"
    unfolding w3_def by (simp add: example_stages_def stage_defs example_defs arg_def)
  have h4: "example_stages TASK_COMPILE_INK_OUTPUT
              (Some [''input'' \<mapsto> VInput example_input, ''output'' \<mapsto> VOutput example_output]) w3
              = (fst res, snd res)"
    unfolding res_def by simp
  have ok: "fst res = Inr Undefined"
    unfolding res_def w3_def w2_def w1_def
    by (simp add: example_stages_def stage_defs example_defs effect_defs arg_def Let_def)
  show ?thesis
    using compile_runs_four_stages_in_order [OF h1 h2 h3 h4, of example_env no_super] ok
    by (simp add: arg_def)
qed

section \<open>Properties of the task engine\<close>

lemma chained_append:
  "chained (ms @ ms') d = (case chained ms d of Inl e \<Rightarrow> Inl e | Inr d' \<Rightarrow> chained ms' d')"
  by (induction ms arbitrary: d) (auto split: sum.splits)

lemma required_first_snoc:
  "required_first ps \<Longrightarrow> isOptional p \<or> \<not> list_ex isOptional ps \<Longrightarrow> required_first (ps @ [p])"
  by (induction ps) (auto simp: list_ex_iff list_all_iff)

lemma add_positional_required_first:
  assumes "add_positional v n descr dflt ty opt d = Inr d'"
    and "required_first (positionalParamDefinitions d)"
  shows "required_first (positionalParamDefinitions d')"
  using assms
  by (auto simp: add_positional_def intro!: required_first_snoc split: if_splits)

text \<open>
  C7. On a schema that already has an optional positional parameter, the add-call for a
  required positional parameter (plain or variadic) returns an error and no definition.
  When the name is new and no variadic parameter is declared, the error is
  \<open>RequiredParamAfterOptionalError\<close>. A chain of builder calls that reaches such a call
  fails there, whatever calls follow: the schema is rejected while the task is declared,
  and no definition with it exists that arguments could later be resolved against.
\<close>

theorem required_positional_after_optional_rejected:
  assumes "\<exists>p \<in> set (positionalParamDefinitions d). isOptional p"
  shows "(\<exists>e. addPositionalParam n descr dflt ty False d = Inl e)
       \<and> (\<exists>e. addVariadicPositionalParam n descr dflt ty False d = Inl e)
       \<and> (n \<notin> set (param_names d) \<and> \<not> list_ex isVariadic (positionalParamDefinitions d) \<longrightarrow>
            addPositionalParam n descr dflt ty False d = Inl (RequiredParamAfterOptionalError n)
          \<and> addVariadicPositionalParam n descr dflt ty False d
              = Inl (RequiredParamAfterOptionalError n))
       \<and> (\<forall>ms ms' d0. chained ms d0 = Inr d \<longrightarrow>
            (\<exists>e. chained (ms @ addPositionalParam n descr dflt ty False # ms') d0 = Inl e)
          \<and> (\<exists>e. chained (ms @ addVariadicPositionalParam n descr dflt ty False # ms') d0 = Inl e))"
proof -
  from assms have opt: "list_ex isOptional (positionalParamDefinitions d)"
    by (simp add: list_ex_iff)
  have a: "\<exists>e. add_positional v n descr dflt ty False d = Inl e" for v
    using opt by (simp add: add_positional_def)
  have b: "n \<notin> set (param_names d) \<Longrightarrow> \<not> list_ex isVariadic (positionalParamDefinitions d) \<Longrightarrow>
      add_positional v n descr dflt ty False d = Inl (RequiredParamAfterOptionalError n)" for v
    using opt by (simp add: add_positional_def)
  have c: "chained ms d0 = Inr d \<Longrightarrow>
      \<exists>e. chained (ms @ add_positional v n descr dflt ty False # ms') d0 = Inl e" for v ms ms' d0
    using a[of v] by (auto simp: chained_append)
  show ?thesis
    unfolding addPositionalParam_def addVariadicPositionalParam_def
    using a b c by blast
qed

lemma declare_all_snoc:
  "declare_all n (decls @ [decl]) tasks =
     (case declare_all n decls tasks of Inl e \<Rightarrow> Inl e | Inr t \<Rightarrow> declare_task n decl t)"
  by (induction decls arbitrary: tasks) (auto split: sum.splits)

lemma declare_task_Inr:
  assumes "declare_task n decl tasks = Inr tasks'"
  obtains d where "build n decl = Inr d" and "tasks' = tasks(n \<mapsto> d # overridden tasks n)"
  using assms by (auto simp: declare_task_def split: sum.splits)

text \<open>
  C9. After the first declaration of a name, running the task calls the declared action
  with a \<^verbatim>\<open>runSuper\<close> whose \<open>isDefined\<close> is false and whose call, on any arguments and in any
  world, fails with \<open>RunSuperNotDefinedError\<close> and changes nothing.
\<close>

theorem base_declaration_has_no_super:
  assumes "tasks n = None" and "declare_task n decl tasks = Inr tasks'"
  shows "\<exists>d rs. build n decl = Inr d \<and> tasks' n = Some [d]
           \<and> (\<forall>a. \<not> isDefined (rs a)
                 \<and> (\<forall>x w'. call (rs a) x w' = (Inl (RunSuperNotDefinedError n), w')))
           \<and> run_task tasks' env n raw w =
               (case resolve_arguments d raw of
                  Inl e \<Rightarrow> (Inl e, w)
                | Inr a \<Rightarrow> action d a env (rs a) w)"
proof -
  from assms(2) obtain d where d: "build n decl = Inr d"
    and t: "tasks' = tasks(n \<mapsto> d # overridden tasks n)"
    by (rule declare_task_Inr)
  from assms(1) t have chain: "tasks' n = Some [d]" by (simp add: overridden_def)
  let ?rs = "\<lambda>a. \<lparr>isDefined = ([] \<noteq> ([] :: 'a TaskDefinition list)),
      call = (\<lambda>x w'. run_definitions n [] env
                \<lparr>named = (case x of None \<Rightarrow> a | Some given \<Rightarrow> given), positional = []\<rparr> w')\<rparr>"
  have run: "run_task tasks' env n raw w =
      (case resolve_arguments d raw of Inl e \<Rightarrow> (Inl e, w) | Inr a \<Rightarrow> action d a env (?rs a) w)"
    unfolding run_task_def overridden_def chain option.case list.case
    by (subst run_definitions.simps(2)) (rule refl)
  have stub: "\<forall>a. \<not> isDefined (?rs a)
      \<and> (\<forall>x w'. call (?rs a) x w' = (Inl (RunSuperNotDefinedError n), w'))"
    by simp
  show ?thesis
    apply (rule exI[of _ d], rule exI[of _ ?rs])
    apply (intro conjI)
       apply (rule d)
      apply (rule chain)
     apply (rule stub)
    apply (rule run)
    done
qed

text \<open>
  C1. After a sequence of declarations of one name that ends with \<open>prev\<close> and then
  \<open>latest\<close> (so at least two), running the task resolves the raw arguments against the
  schema of \<open>latest\<close> and calls its action with a \<^verbatim>\<open>runSuper\<close> whose \<open>isDefined\<close> is true.
  Calling that \<^verbatim>\<open>runSuper\<close> resolves the arguments against the schema of \<open>prev\<close> and calls
  the action of \<open>prev\<close>, and no other action. The declarations before \<open>prev\<close> are reached
  only through the \<^verbatim>\<open>runSuper\<close> that the action of \<open>prev\<close> is given in turn.
\<close>

theorem override_super_runs_previous_declaration:
  assumes "declare_all n (earlier @ [prev, latest]) tasks = Inr tasks'"
  shows "\<exists>d p older rs rs'.
           build n latest = Inr d \<and> build n prev = Inr p \<and> tasks' n = Some (d # p # older)
         \<and> (\<forall>a. isDefined (rs a)
               \<and> (\<forall>x w'. call (rs a) x w' =
                     (case resolve_arguments p
                             \<lparr>named = (case x of None \<Rightarrow> a | Some given \<Rightarrow> given), positional = []\<rparr> of
                        Inl e \<Rightarrow> (Inl e, w')
                      | Inr a' \<Rightarrow> action p a' env (rs' a') w')))
         \<and> (\<forall>a'. isDefined (rs' a') = (older \<noteq> []))
         \<and> run_task tasks' env n raw w =
             (case resolve_arguments d raw of
                Inl e \<Rightarrow> (Inl e, w)
              | Inr a \<Rightarrow> action d a env (rs a) w)"
proof -
  have "earlier @ [prev, latest] = (earlier @ [prev]) @ [latest]" by simp
  with assms obtain t2 where t2: "declare_all n (earlier @ [prev]) tasks = Inr t2"
    and l: "declare_task n latest t2 = Inr tasks'"
    by (auto simp only: declare_all_snoc split: sum.splits)
  from t2 obtain t1 where t1: "declare_all n earlier tasks = Inr t1"
    and pr: "declare_task n prev t1 = Inr t2"
    by (auto simp only: declare_all_snoc split: sum.splits)
  from pr obtain p where p: "build n prev = Inr p" and t2': "t2 = t1(n \<mapsto> p # overridden t1 n)"
    by (rule declare_task_Inr)
  from l obtain d where d: "build n latest = Inr d" and t': "tasks' = t2(n \<mapsto> d # overridden t2 n)"
    by (rule declare_task_Inr)
  let ?older = "overridden t1 n"
  have chain: "tasks' n = Some (d # p # ?older)"
    using t' t2' by (simp add: overridden_def)
  let ?rs' = "\<lambda>a'. \<lparr>isDefined = (?older \<noteq> []),
      call = (\<lambda>x w'. run_definitions n ?older env
                \<lparr>named = (case x of None \<Rightarrow> a' | Some given \<Rightarrow> given), positional = []\<rparr> w')\<rparr>"
  let ?rs = "\<lambda>a. \<lparr>isDefined = (p # ?older \<noteq> []),
      call = (\<lambda>x w'. run_definitions n (p # ?older) env
                \<lparr>named = (case x of None \<Rightarrow> a | Some given \<Rightarrow> given), positional = []\<rparr> w')\<rparr>"
  have run: "run_task tasks' env n raw w =
      (case resolve_arguments d raw of Inl e \<Rightarrow> (Inl e, w) | Inr a \<Rightarrow> action d a env (?rs a) w)"
    unfolding run_task_def overridden_def chain option.case list.case
    by (subst run_definitions.simps(2)) (rule refl)
  have super: "\<forall>a. isDefined (?rs a)
      \<and> (\<forall>x w'. call (?rs a) x w' =
            (case resolve_arguments p
                    \<lparr>named = (case x of None \<Rightarrow> a | Some given \<Rightarrow> given), positional = []\<rparr> of
               Inl e \<Rightarrow> (Inl e, w')
             | Inr a' \<Rightarrow> action p a' env (?rs' a') w'))"
    by simp
  have super': "\<forall>a'. isDefined (?rs' a') = (?older \<noteq> [])"
    by simp
  show ?thesis
    apply (rule exI[of _ d], rule exI[of _ p], rule exI[of _ ?older])
    apply (rule exI[of _ ?rs], rule exI[of _ ?rs'])
    apply (intro conjI)
         apply (rule d)
        apply (rule p)
       apply (rule chain)
      apply (rule super)
     apply (rule super')
    apply (rule run)
    done
qed


lemma bound_Inl [simp]: "bound b (Inl e) = Inl e"
  by (simp add: bound_def)

lemma bound_Inr [simp]: "bound b (Inr bs) = Inr (b # bs)"
  by (simp add: bound_def)


















lemmas engine_defs =
  declare_task_def build_def overridden_def run_task_def resolve_arguments_def
  bind_arguments_def unless_optional_def check_binding_def check_one_def default_of_def
  addParam_def addOptionalParam_def add_positional_def addPositionalParam_def
  addVariadicPositionalParam_def param_names_def absent_params_def string_type_def

lemmas greet_defs =
  greet_base_def greet_override_def greet_again_def greet_once_def greet_thrice_def
  greet_definition_def deploy_definition_def no_arguments_def shown_def

theorem required_positional_after_optional_rejected_witness:
  "(\<exists>p \<in> set (positionalParamDefinitions greet_definition). isOptional p)
   \<and> addPositionalParam ''title'' None None string_type False greet_definition
       = Inl (RequiredParamAfterOptionalError ''title'')
   \<and> addVariadicPositionalParam ''titles'' None None string_type False greet_definition
       = Inl (RequiredParamAfterOptionalError ''titles'')"
proof -
  have h: "\<exists>p \<in> set (positionalParamDefinitions greet_definition). isOptional p"
    by (simp add: greet_definition_def)
  have fresh: "''title'' \<notin> set (param_names greet_definition)"
    "''titles'' \<notin> set (param_names greet_definition)"
    "\<not> list_ex isVariadic (positionalParamDefinitions greet_definition)"
    by (simp_all add: greet_definition_def param_names_def)
  show ?thesis
    using required_positional_after_optional_rejected
            [OF h, of "''title''" None None string_type]
          required_positional_after_optional_rejected
            [OF h, of "''titles''" None None string_type]
          h fresh
    by blast
qed

theorem base_declaration_has_no_super_witness:
  "(Map.empty :: world TasksMap) ''greet'' = None
   \<and> declare_task ''greet'' greet_base Map.empty = Inr greet_once
   \<and> (\<exists>d rs. build ''greet'' greet_base = Inr d \<and> greet_once ''greet'' = Some [d]
         \<and> (\<forall>a. \<not> isDefined (rs a)
               \<and> (\<forall>x w'. call (rs a) x w' = (Inl (RunSuperNotDefinedError ''greet''), w')))
         \<and> run_task greet_once example_env ''greet'' no_arguments example_world =
             (case resolve_arguments d no_arguments of
                Inl e \<Rightarrow> (Inl e, example_world)
              | Inr a \<Rightarrow> action d a example_env (rs a) example_world))
   \<and> events (snd (run_task greet_once example_env ''greet'' no_arguments example_world))
       = [ConsoleLog ''hello, world'']"
proof -
  have h1: "(Map.empty :: world TasksMap) ''greet'' = None" by simp
  have h2: "declare_task ''greet'' greet_base Map.empty = Inr greet_once"
    by (simp add: greet_once_def engine_defs greet_base_def)
  have obs: "events (snd (run_task greet_once example_env ''greet'' no_arguments example_world))
       = [ConsoleLog ''hello, world'']"
    by (simp add: engine_defs greet_defs arg_def console_log_def example_world_def Let_def)
  show ?thesis
    using base_declaration_has_no_super
            [OF h1 h2, of example_env no_arguments example_world] h1 h2 obs
    by blast
qed

theorem override_super_runs_previous_declaration_witness:
  "declare_all ''greet'' ([greet_base] @ [greet_override, greet_again]) Map.empty = Inr greet_thrice
   \<and> (\<exists>d p older rs rs'.
         build ''greet'' greet_again = Inr d \<and> build ''greet'' greet_override = Inr p
       \<and> greet_thrice ''greet'' = Some (d # p # older)
       \<and> (\<forall>a. isDefined (rs a)
             \<and> (\<forall>x w'. call (rs a) x w' =
                   (case resolve_arguments p
                           \<lparr>named = (case x of None \<Rightarrow> a | Some given \<Rightarrow> given), positional = []\<rparr> of
                      Inl e \<Rightarrow> (Inl e, w')
                    | Inr a' \<Rightarrow> action p a' example_env (rs' a') w')))
       \<and> (\<forall>a'. isDefined (rs' a') = (older \<noteq> []))
       \<and> run_task greet_thrice example_env ''greet'' no_arguments example_world =
           (case resolve_arguments d no_arguments of
              Inl e \<Rightarrow> (Inl e, example_world)
            | Inr a \<Rightarrow> action d a example_env (rs a) example_world))
   \<and> events (snd (run_task greet_thrice example_env ''greet'' no_arguments example_world))
       = [ConsoleLog ''once more'', ConsoleLog ''HELLO, redspot!!'', ConsoleLog ''hello, redspot'']"
proof -
  have h: "declare_all ''greet'' ([greet_base] @ [greet_override, greet_again]) Map.empty
      = Inr greet_thrice"
    by (simp add: greet_thrice_def engine_defs greet_base_def greet_override_def greet_again_def)
  have obs: "events (snd (run_task greet_thrice example_env ''greet'' no_arguments example_world))
       = [ConsoleLog ''once more'', ConsoleLog ''HELLO, redspot!!'', ConsoleLog ''hello, redspot'']"
    by (simp add: engine_defs greet_defs arg_def console_log_def example_world_def Let_def)
  show ?thesis
    using override_super_runs_previous_declaration
            [OF h, of example_env no_arguments example_world] h obs
    by blast
qed



text \<open>
  The example project compiled through the engine: the runner resolves the arguments of
  each stage against its schema and the stages run in order on the one world.
\<close>

lemma example_tasks_registered:
  "register_compile_tasks example_collaborators Map.empty = Inr example_tasks"
  by (simp add: example_tasks_def register_compile_tasks_def declare_task_def build_def
      overridden_def addOptionalVariadicPositionalParam_def add_positional_def setAction_def
      param_names_def TASK_COMPILE_INK_def TASK_COMPILE_INK_PRE_def TASK_COMPILE_INK_INPUT_def
      TASK_COMPILE_INK_EXEC_def TASK_COMPILE_INK_OUTPUT_def)

lemma example_compile_through_engine:
  "fst (run_task example_tasks (example_env\<lparr>run := run_through example_tasks example_env\<rparr>)
          TASK_COMPILE_INK no_arguments example_world) = Inr Undefined
   \<and> events (snd (run_task example_tasks
          (example_env\<lparr>run := run_through example_tasks example_env\<rparr>)
          TASK_COMPILE_INK no_arguments example_world))
       = [CheckEnv ''0.8.0'', GetCompilerInput (VList []), Compile example_input False,
          EnsureDir ''artifacts'', ReadJSON ''target/erc20.contract'' example_bundle,
          WriteJSON ''artifacts/erc20.contract'' example_bundle,
          WriteJSON ''artifacts/erc20.json'' (delete_source_wasm example_bundle),
          ConsoleLog [], ConsoleLog (success_message ''artifacts'')]"
  by (simp add: example_tasks_def register_compile_tasks_def run_through_def engine_defs
      addOptionalVariadicPositionalParam_def setAction_def stage_defs compile_ink_def
      TASK_COMPILE_INK_def example_defs effect_defs arg_def no_arguments_def Let_def)


end
